theory Spec2Isabelle
  imports Complex_Main "HOL-Library.Log_Nat" "HOL-Library.Signed_Division"
begin

section \<open>Go values used by the controller\<close>

subsection \<open>Machine integers\<close>

text \<open>
  Go's \<^verbatim>\<open>int\<close>, \<^verbatim>\<open>int64\<close> and \<^verbatim>\<open>time.Duration\<close> are 64-bit two's complement
  integers. They are modelled as \<^typ>\<open>int\<close>; an arithmetic result is wrapped into the
  64-bit range where Go wraps it. Integer division and remainder truncate toward zero
  (\<open>sdiv\<close> and \<open>smod\<close>).
\<close>

definition int64 :: "int \<Rightarrow> int" where
  "int64 x = (x + 2 ^ 63) mod 2 ^ 64 - 2 ^ 63"

definition int64_mul :: "int \<Rightarrow> int \<Rightarrow> int" where
  "int64_mul a b = int64 (a * b)"

subsection \<open>float64\<close>

text \<open>
  A finite \<^verbatim>\<open>float64\<close> is a rational number. \<open>float64 x\<close> is the double nearest to
  \<open>x\<close>, ties to even: the binade of \<open>x\<close> gives the unit in the last place (53 significant
  bits, subnormals below \<open>2 powi - 1022\<close>), and \<open>x\<close> is rounded to a multiple of it.
  Overflow to infinity is left out: every value the controller computes has magnitude
  below \<open>2 ^ 22\<close> hours.
\<close>

definition round_half_even :: "rat \<Rightarrow> int" where
  "round_half_even q =
     (let f = \<lfloor>q\<rfloor>; r = q - of_int f
      in if r < 1 / 2 then f else if 1 / 2 < r then f + 1 else if even f then f else f + 1)"

definition ilog2 :: "rat \<Rightarrow> int" where
  "ilog2 x = (if 1 \<le> x then bitlen \<lfloor>x\<rfloor> - 1 else - bitlen (\<lceil>1 / x\<rceil> - 1))"

definition ulp :: "rat \<Rightarrow> rat" where
  "ulp x = 2 powi (max (ilog2 \<bar>x\<bar>) (- 1022) - 52)"

definition float64 :: "rat \<Rightarrow> rat" where
  "float64 x = (if x = 0 then 0 else of_int (round_half_even (x / ulp x)) * ulp x)"

definition f64_of_int :: "int \<Rightarrow> rat" where
  "f64_of_int k = float64 (of_int k)"

definition f64_add :: "rat \<Rightarrow> rat \<Rightarrow> rat" where
  "f64_add a b = float64 (a + b)"

definition f64_div :: "rat \<Rightarrow> rat \<Rightarrow> rat" where
  "f64_div a b = float64 (a / b)"

text \<open>The conversion \<^verbatim>\<open>int(x)\<close> of a float64 drops the fraction (truncation toward zero).\<close>

definition go_int :: "rat \<Rightarrow> int" where
  "go_int x = (if 0 \<le> x then \<lfloor>x\<rfloor> else \<lceil>x\<rceil>)"

subsection \<open>Package time\<close>

text \<open>
  A \<^verbatim>\<open>time.Duration\<close> is an int64 count of nanoseconds. A \<^verbatim>\<open>time.Time\<close> is an instant;
  it is modelled as its (unbounded) count of nanoseconds since the Unix epoch.
  \<^verbatim>\<open>t.Sub(u)\<close> is the difference, saturated to the range of a Duration.
  \<^verbatim>\<open>d.Hours()\<close> is, in the library,
  \<^verbatim>\<open>hour := d / Hour; nsec := d % Hour; return float64(hour) + float64(nsec)/(60*60*1e9)\<close>.
\<close>

type_synonym Duration = int
type_synonym Time = int

definition Hour :: Duration where
  "Hour = 3600000000000"

definition minDuration :: Duration where
  "minDuration = - (2 ^ 63)"

definition maxDuration :: Duration where
  "maxDuration = 2 ^ 63 - 1"

definition Time_Sub :: "Time \<Rightarrow> Time \<Rightarrow> Duration" where
  "Time_Sub t u =
     (let d = t - u
      in if d < minDuration then minDuration else if maxDuration < d then maxDuration else d)"

definition Duration_Hours :: "Duration \<Rightarrow> rat" where
  "Duration_Hours d =
     (let hour = d sdiv Hour; nsec = d smod Hour
      in f64_add (f64_of_int hour) (f64_div (f64_of_int nsec) (60 * 60 * 1000000000)))"

text \<open>The zero \<^verbatim>\<open>time.Time\<close>: January 1 of year 1, 00:00 UTC.\<close>

definition zero_Time :: Time where
  "zero_Time = - 62135596800000000000"

subsection \<open>Errors\<close>

datatype error =
    Err string
  | Wrap string error

subsection \<open>Packages strings and strconv\<close>

definition TrimSuffix :: "string \<Rightarrow> string \<Rightarrow> string" where
  "TrimSuffix s suf =
     (if length suf \<le> length s \<and> drop (length s - length suf) s = suf
      then take (length s - length suf) s else s)"

text \<open>
  \<^verbatim>\<open>strconv.Atoi\<close> accepts an optional sign followed by one or more decimal digits and
  nothing else; a value outside the int64 range is a range error.
\<close>

definition digit_val :: "char \<Rightarrow> int option" where
  "digit_val c =
     (let n = (of_char c :: int) in if 48 \<le> n \<and> n \<le> 57 then Some (n - 48) else None)"

fun digits_val :: "int \<Rightarrow> string \<Rightarrow> int option" where
  "digits_val acc [] = Some acc"
| "digits_val acc (c # cs) =
     (case digit_val c of None \<Rightarrow> None | Some d \<Rightarrow> digits_val (acc * 10 + d) cs)"

definition ErrSyntax :: error where
  "ErrSyntax = Err ''invalid syntax''"

definition ErrRange :: error where
  "ErrRange = Err ''value out of range''"

definition Atoi :: "string \<Rightarrow> error + int" where
  "Atoi s =
     (case s of
        [] \<Rightarrow> Inl ErrSyntax
      | c # cs \<Rightarrow>
          (let ds = (if c = CHR ''-'' \<or> c = CHR ''+'' then cs else s)
           in if ds = [] then Inl ErrSyntax
              else case digits_val 0 ds of
                     None \<Rightarrow> Inl ErrSyntax
                   | Some n \<Rightarrow>
                       (let v = (if c = CHR ''-'' then - n else n)
                        in if v < - (2 ^ 63) \<or> 2 ^ 63 - 1 < v then Inl ErrRange else Inr v)))"

section \<open>The data model\<close>

text \<open>
  A \<^verbatim>\<open>corev1.Secret\<close> with the fields of its metadata the controller reads (name, namespace,
  resource version, annotations) and, standing for the rest of the object, its labels,
  data payload and type.
\<close>

record Secret =
  Name :: string
  Namespace :: string
  ResourceVersion :: string
  Annotations :: "string \<rightharpoonup> string"
  Labels :: "string \<rightharpoonup> string"
  Data :: "string \<rightharpoonup> string"
  Type :: string

text \<open>
  The \<^verbatim>\<open>interface{}\<close> values an informer hands to the event handlers and keeps in its
  store: a pointer to a Secret, a \<^verbatim>\<open>cache.DeletedFinalStateUnknown\<close> tombstone (key and
  last known object), or a value of some other type (named by its type).
\<close>

datatype object =
    SecretPtr Secret
  | DeletedFinalStateUnknown string object
  | OtherObject string

record SecretInfo =
  Name :: string
  Namespace :: string
  ExpiresAt :: Time
  WarnBefore :: Duration
  DaysUntilExp :: int

definition AnnotationExpiresAt :: string where
  "AnnotationExpiresAt = ''secret-operator.example.com/expires-at''"

definition AnnotationWarnBefore :: string where
  "AnnotationWarnBefore = ''secret-operator.example.com/warn-before''"

text \<open>The zero value \<^verbatim>\<open>SecretInfo{}\<close>.\<close>

definition SecretInfo_zero :: SecretInfo where
  "SecretInfo_zero =
     \<lparr>SecretInfo.Name = [], Namespace = [], ExpiresAt = zero_Time, WarnBefore = 0,
      DaysUntilExp = 0\<rparr>"

subsection \<open>Library functions taken as parameters\<close>

text \<open>
  The functions of the Go standard library and of client-go that the controller calls and
  that are not part of the repository: \<^verbatim>\<open>time.Parse\<close> with the layout \<^verbatim>\<open>"2006-01-02"\<close>,
  \<^verbatim>\<open>time.ParseDuration\<close>, \<^verbatim>\<open>cache.MetaNamespaceKeyFunc\<close> and
  \<^verbatim>\<open>cache.SplitMetaNamespaceKey\<close>. Each returns an error or a value.
\<close>

record lib =
  time_Parse :: "string \<Rightarrow> error + Time"
  time_ParseDuration :: "string \<Rightarrow> error + Duration"
  cache_MetaNamespaceKeyFunc :: "object \<Rightarrow> error + string"
  cache_SplitMetaNamespaceKey :: "string \<Rightarrow> error + string \<times> string"

text \<open>
  The informer's store, \<^verbatim>\<open>c.informer.GetStore().GetByKey(key)\<close>: an error, or the object
  under the key if there is one.
\<close>

type_synonym store = "string \<Rightarrow> error + object option"

subsection \<open>Calls on the collaborators\<close>

text \<open>
  What the controller does to the outside is a sequence of calls: log lines through klog,
  events through the recorder, and the four operations of the work queue it uses. A call
  keeps its format string and its arguments; a time argument stands for the date
  formatted with the layout \<^verbatim>\<open>"2006-01-02"\<close>.
\<close>

datatype klog_level = klog_Info | klog_V2_Info | klog_Warning | klog_Error

datatype arg = AString string | AInt int | ADate Time | AError error | AType object

datatype call =
    klog klog_level string "arg list"
  | recorder_Eventf Secret string string string "arg list"
  | workqueue_Add string
  | workqueue_AddRateLimited string
  | workqueue_Forget string
  | workqueue_Done string

definition EventTypeNormal :: string where
  "EventTypeNormal = ''Normal''"

definition EventTypeWarning :: string where
  "EventTypeWarning = ''Warning''"

fun is_workqueue_call :: "call \<Rightarrow> bool" where
  "is_workqueue_call (workqueue_Add k) = True"
| "is_workqueue_call (workqueue_AddRateLimited k) = True"
| "is_workqueue_call (workqueue_Forget k) = True"
| "is_workqueue_call (workqueue_Done k) = True"
| "is_workqueue_call c = False"

fun is_klog :: "call \<Rightarrow> bool" where
  "is_klog (klog l f as) = True"
| "is_klog c = False"

definition workqueue_calls :: "call list \<Rightarrow> call list" where
  "workqueue_calls cs = filter is_workqueue_call cs"

fun event_reasons :: "call list \<Rightarrow> string list" where
  "event_reasons [] = []"
| "event_reasons (recorder_Eventf s t r f as # cs) = r # event_reasons cs"
| "event_reasons (c # cs) = event_reasons cs"

section \<open>The controller\<close>

subsection \<open>Helpers\<close>

definition parseDuration :: "lib \<Rightarrow> string \<Rightarrow> error + Duration" where
  "parseDuration l s =
     (if length s > 1 \<and> s ! (length s - 1) = CHR ''d'' then
        (let daysStr = TrimSuffix s ''d''
         in case Atoi daysStr of
              Inl err \<Rightarrow> Inl (Wrap ''invalid days format: %w'' err)
            | Inr days \<Rightarrow> Inr (int64_mul (int64_mul days 24) Hour))
      else time_ParseDuration l s)"

definition parseSecretInfo :: "lib \<Rightarrow> Time \<Rightarrow> Secret \<Rightarrow> SecretInfo \<times> bool" where
  "parseSecretInfo l now secret =
     (case Annotations secret AnnotationExpiresAt of
        None \<Rightarrow> (SecretInfo_zero, False)
      | Some expiresAt \<Rightarrow>
          (case time_Parse l expiresAt of
             Inl err \<Rightarrow> (SecretInfo_zero, False)
           | Inr expTime \<Rightarrow>
               (let warnBefore =
                      (case Annotations secret AnnotationWarnBefore of
                         None \<Rightarrow> 7 * 24 * Hour
                       | Some warnStr \<Rightarrow>
                           (case parseDuration l warnStr of
                              Inr parsed \<Rightarrow> parsed
                            | Inl err \<Rightarrow> 7 * 24 * Hour));
                    daysUntil = go_int (f64_div (Duration_Hours (Time_Sub expTime now)) 24)
                in (\<lparr>SecretInfo.Name = Secret.Name secret,
                     Namespace = Secret.Namespace secret,
                     ExpiresAt = expTime,
                     WarnBefore = warnBefore,
                     DaysUntilExp = daysUntil\<rparr>, True))))"

subsection \<open>Events\<close>

definition warnThresholdDays :: "SecretInfo \<Rightarrow> int" where
  "warnThresholdDays info = go_int (f64_div (Duration_Hours (WarnBefore info)) 24)"

definition emitExpirationEvent :: "Secret \<Rightarrow> SecretInfo \<Rightarrow> call list" where
  "emitExpirationEvent secret info =
     (if DaysUntilExp info < 0 then
        [klog klog_Warning ''  EXPIRED %d days ago: %s/%s''
           [AInt (- DaysUntilExp info),
            AString (SecretInfo.Namespace info), AString (SecretInfo.Name info)],
         recorder_Eventf secret EventTypeWarning ''SecretExpired''
           ''Secret expired %d days ago (expired on %s)''
           [AInt (- DaysUntilExp info), ADate (ExpiresAt info)]]
      else if DaysUntilExp info \<le> warnThresholdDays info then
        [klog klog_Warning ''  EXPIRING SOON in %d days: %s/%s''
           [AInt (DaysUntilExp info),
            AString (SecretInfo.Namespace info), AString (SecretInfo.Name info)],
         recorder_Eventf secret EventTypeWarning ''SecretExpiringSoon''
           ''Secret expires in %d days (on %s). Warning threshold: %d days''
           [AInt (DaysUntilExp info), ADate (ExpiresAt info), AInt (warnThresholdDays info)]]
      else
        [klog klog_Info ''  OK: %d days remaining for %s/%s''
           [AInt (DaysUntilExp info),
            AString (SecretInfo.Namespace info), AString (SecretInfo.Name info)],
         recorder_Eventf secret EventTypeNormal ''SecretValid''
           ''Secret is valid. Expires in %d days (on %s)''
           [AInt (DaysUntilExp info), ADate (ExpiresAt info)]])"

subsection \<open>Event handlers\<close>

text \<open>
  Each handler returns the calls it makes, in order. \<open>now\<close> is what \<^verbatim>\<open>time.Now()\<close> returns
  inside \<^verbatim>\<open>parseSecretInfo\<close>; \<^verbatim>\<open>handleUpdate\<close> reads the clock twice.
\<close>

definition handleAdd :: "lib \<Rightarrow> Time \<Rightarrow> object \<Rightarrow> call list" where
  "handleAdd l now obj =
     (case cache_MetaNamespaceKeyFunc l obj of
        Inl err \<Rightarrow>
          [klog klog_Error ''Error getting key for added object: %v'' [AError err]]
      | Inr key \<Rightarrow>
          (case obj of
             SecretPtr secret \<Rightarrow>
               if \<not> snd (parseSecretInfo l now secret) then []
               else [klog klog_V2_Info ''ADD event: %s'' [AString key], workqueue_Add key]
           | _ \<Rightarrow> []))"

definition handleUpdate :: "lib \<Rightarrow> Time \<Rightarrow> Time \<Rightarrow> object \<Rightarrow> object \<Rightarrow> call list" where
  "handleUpdate l now now' oldObj newObj =
     (case oldObj of
        SecretPtr oldSecret \<Rightarrow>
          (case newObj of
             SecretPtr newSecret \<Rightarrow>
               if ResourceVersion oldSecret = ResourceVersion newSecret then []
               else
                 (case cache_MetaNamespaceKeyFunc l newObj of
                    Inl err \<Rightarrow>
                      [klog klog_Error ''Error getting key for updated object: %v'' [AError err]]
                  | Inr key \<Rightarrow>
                      (let oldHasExp = snd (parseSecretInfo l now oldSecret);
                           newHasExp = snd (parseSecretInfo l now' newSecret)
                       in if oldHasExp \<or> newHasExp
                          then [klog klog_V2_Info ''UPDATE event: %s'' [AString key],
                                workqueue_Add key]
                          else []))
           | _ \<Rightarrow> [])
      | _ \<Rightarrow> [])"

text \<open>
  \<open>handleDelete_secret\<close> is the part of \<^verbatim>\<open>handleDelete\<close> after the type switch, where
  \<^verbatim>\<open>secret\<close> is the removed object or the object of its tombstone.
\<close>

definition handleDelete_secret :: "lib \<Rightarrow> Time \<Rightarrow> Secret \<Rightarrow> call list" where
  "handleDelete_secret l now secret =
     (if \<not> snd (parseSecretInfo l now secret) then []
      else
        (case cache_MetaNamespaceKeyFunc l (SecretPtr secret) of
           Inl err \<Rightarrow>
             [klog klog_Error ''Error getting key for deleted object: %v'' [AError err]]
         | Inr key \<Rightarrow>
             [klog klog_Info ''DELETE: %s (was tracking expiration)'' [AString key]]))"

definition handleDelete :: "lib \<Rightarrow> Time \<Rightarrow> object \<Rightarrow> call list" where
  "handleDelete l now obj =
     (case obj of
        SecretPtr secret \<Rightarrow> handleDelete_secret l now secret
      | DeletedFinalStateUnknown key tombstoneObj \<Rightarrow>
          (case tombstoneObj of
             SecretPtr secret \<Rightarrow> handleDelete_secret l now secret
           | _ \<Rightarrow>
               [klog klog_Error ''Tombstone contained unexpected type: %T''
                  [AType tombstoneObj]])
      | _ \<Rightarrow> [klog klog_Error ''Unexpected type in handleDelete: %T'' [AType obj]])"

subsection \<open>The worker\<close>

text \<open>\<open>reconcile\<close> returns its calls and its error (\<open>None\<close> for \<^verbatim>\<open>nil\<close>).\<close>

definition reconcile :: "lib \<Rightarrow> store \<Rightarrow> Time \<Rightarrow> string \<Rightarrow> call list \<times> error option" where
  "reconcile l st now key =
     (case cache_SplitMetaNamespaceKey l key of
        Inl err \<Rightarrow> ([klog klog_Error ''Invalid key format: %s'' [AString key]], None)
      | Inr (namespace, name) \<Rightarrow>
          (case st key of
             Inl err \<Rightarrow> ([], Some (Wrap ''error fetching object %s from cache: %w'' err))
           | Inr None \<Rightarrow> ([klog klog_Info ''Secret %s no longer exists'' [AString key]], None)
           | Inr (Some obj) \<Rightarrow>
               (case obj of
                  SecretPtr secret \<Rightarrow>
                    (let (info, hasExpiration) = parseSecretInfo l now secret
                     in if \<not> hasExpiration then ([], None)
                        else (klog klog_Info ''Reconciling %s/%s | expires: %s | days: %d''
                                [AString namespace, AString name, ADate (ExpiresAt info),
                                 AInt (DaysUntilExp info)]
                              # emitExpirationEvent secret info, None))
                | _ \<Rightarrow> ([], Some (Err ''unexpected object type in cache: %T'')))))"

text \<open>
  \<open>processNextWorkItem\<close> takes what \<^verbatim>\<open>c.workqueue.Get()\<close> returned, the key and the
  shutdown flag. The deferred \<^verbatim>\<open>Done(key)\<close> runs last on every path after the shutdown
  check.
\<close>

definition processNextWorkItem ::
  "lib \<Rightarrow> store \<Rightarrow> Time \<Rightarrow> string \<times> bool \<Rightarrow> call list \<times> bool" where
  "processNextWorkItem l st now got =
     (let (key, shutdown) = got
      in if shutdown then ([], False)
         else
           (let (calls, err) = reconcile l st now key
            in case err of
                 Some e \<Rightarrow>
                   (calls @
                    [workqueue_AddRateLimited key,
                     klog klog_Error ''Error reconciling %s (will retry): %v''
                       [AString key, AError e],
                     workqueue_Done key], True)
               | None \<Rightarrow> (calls @ [workqueue_Forget key, workqueue_Done key], True)))"

section \<open>The work queue\<close>

text \<open>
  The controller takes its queue from \<^verbatim>\<open>k8s.io/client-go/util/workqueue\<close>
  (\<^verbatim>\<open>NewTypedRateLimitingQueue\<close> in \<^verbatim>\<open>NewSecretController\<close>); the code of the queue is not part
  of the repository. The definitions of this section follow the description of the queue
  in the spec. The rate limiter and the shutdown flag play no part in deduplication and
  are left out.
\<close>

text \<open>
  Modelled from the spec: the state of the queue, which is missing from the sources. It
  has the pending keys, in the order of their delivery, the set of the keys in flight
  (between \<open>get\<close> and \<open>done\<close>) and the set of the dirty keys.
\<close>

record workqueue =
  pending :: "string list"
  inflight :: "string set"
  dirty :: "string set"

text \<open>Modelled from the spec: the queue at its creation, with no key.\<close>

definition wq_empty :: workqueue where
  "wq_empty = \<lparr>pending = [], inflight = {}, dirty = {}\<rparr>"

text \<open>
  Modelled from the spec: \<open>add(key)\<close> of the missing queue. It is a no-op when the key is
  already queued and not yet dequeued; when the key is being processed, the key is marked
  dirty; otherwise the key is queued.
\<close>

definition wq_add :: "string \<Rightarrow> workqueue \<Rightarrow> workqueue" where
  "wq_add k q =
     (if k \<in> set (pending q) then q
      else if k \<in> inflight q then q\<lparr>dirty := insert k (dirty q)\<rparr>
      else q\<lparr>pending := pending q @ [k]\<rparr>)"

text \<open>
  Modelled from the spec: \<open>get()\<close> of the missing queue. It takes the first pending key and
  puts it in flight; with no pending key it blocks, which is \<open>None\<close>.
\<close>

definition wq_get :: "workqueue \<Rightarrow> (string \<times> workqueue) option" where
  "wq_get q =
     (case pending q of
        [] \<Rightarrow> None
      | k # ks \<Rightarrow> Some (k, q\<lparr>pending := ks, inflight := insert k (inflight q)\<rparr>))"

text \<open>
  Modelled from the spec: \<open>done(key)\<close> of the missing queue. The key is no longer in
  flight; a dirty key loses its mark and is queued again.
\<close>

definition wq_done :: "string \<Rightarrow> workqueue \<Rightarrow> workqueue" where
  "wq_done k q =
     (if k \<in> dirty q
      then q\<lparr>pending := pending q @ [k], inflight := inflight q - {k}, dirty := dirty q - {k}\<rparr>
      else q\<lparr>inflight := inflight q - {k}\<rparr>)"

text \<open>
  Modelled from the spec: the histories of the missing queue. Its state is guarded by one
  lock, so the operations of the handlers and of the workers take place one at a time: a
  history is a list of operations.
\<close>

datatype wq_op = Add string | Get | Done string

text \<open>
  Modelled from the spec: running a history on the missing queue. \<open>wq_run\<close> returns the keys
  that the \<open>get\<close>s of the history delivered, in order, and the final state; a \<open>get\<close> on a
  queue with no pending key delivers nothing.
\<close>

fun wq_run :: "wq_op list \<Rightarrow> workqueue \<Rightarrow> string list \<times> workqueue" where
  "wq_run [] q = ([], q)"
| "wq_run (Add k # ops) q = wq_run ops (wq_add k q)"
| "wq_run (Done k # ops) q = wq_run ops (wq_done k q)"
| "wq_run (Get # ops) q =
     (case wq_get q of
        None \<Rightarrow> wq_run ops q
      | Some (k, q') \<Rightarrow> (let (ks, q'') = wq_run ops q' in (k # ks, q'')))"

text \<open>
  Modelled from the spec: the invariant of the missing queue. A key is pending at most
  once, no pending key is in flight, and only keys in flight are dirty.
\<close>

definition wq_inv :: "workqueue \<Rightarrow> bool" where
  "wq_inv q \<longleftrightarrow>
     distinct (pending q) \<and> set (pending q) \<inter> inflight q = {} \<and> dirty q \<subseteq> inflight q"

section \<open>Example values\<close>

text \<open>
  An instance of the library functions for the examples: it parses the one date and the
  one duration the examples use, builds the key of a Secret as \<^verbatim>\<open>namespace/name\<close> (the name
  alone when the namespace is empty) and splits a key at its slash.
\<close>

definition date_2024_12_31 :: Time where
  "date_2024_12_31 = 1735603200000000000"

definition example_KeyFunc :: "object \<Rightarrow> error + string" where
  "example_KeyFunc obj =
     (case obj of
        SecretPtr s \<Rightarrow>
          Inr (if Secret.Namespace s = [] then Secret.Name s
               else Secret.Namespace s @ ''/'' @ Secret.Name s)
      | _ \<Rightarrow> Inl (Err ''object has no meta''))"

definition example_SplitKey :: "string \<Rightarrow> error + string \<times> string" where
  "example_SplitKey key =
     (if CHR ''/'' \<notin> set key then Inr ([], key)
      else let namespace = takeWhile (\<lambda>c. c \<noteq> CHR ''/'') key;
               name = tl (dropWhile (\<lambda>c. c \<noteq> CHR ''/'') key)
           in if CHR ''/'' \<in> set name then Inl (Err ''unexpected key format'')
              else Inr (namespace, name))"

definition example_lib :: lib where
  "example_lib =
     \<lparr>time_Parse =
        (\<lambda>s. if s = ''2024-12-31'' then Inr date_2024_12_31
             else Inl (Err ''parsing time: cannot parse'')),
      time_ParseDuration =
        (\<lambda>s. if s = ''24h30m'' then Inr (24 * Hour + 1800000000000)
             else Inl (Err ''time: invalid duration'')),
      cache_MetaNamespaceKeyFunc = example_KeyFunc,
      cache_SplitMetaNamespaceKey = example_SplitKey\<rparr>"

definition example_secret :: Secret where
  "example_secret =
     \<lparr>Secret.Name = ''db-password'', Namespace = ''default'', ResourceVersion = ''41'',
      Annotations = [AnnotationExpiresAt \<mapsto> ''2024-12-31''],
      Labels = Map.empty, Data = [''password'' \<mapsto> ''hunter2''], Type = ''Opaque''\<rparr>"

text \<open>The store that holds the one object \<open>obj\<close> under \<open>key\<close>.\<close>

definition store_of :: "string \<Rightarrow> object \<Rightarrow> store" where
  "store_of key obj = (\<lambda>k. if k = key then Inr (Some obj) else Inr None)"

section \<open>Properties of the float64 rounding\<close>

lemma rhe_bounds: "\<lfloor>q\<rfloor> \<le> round_half_even q \<and> round_half_even q \<le> \<lfloor>q\<rfloor> + 1"
  by (simp add: round_half_even_def Let_def)

lemma rhe_of_int: "round_half_even (of_int k) = k"
  by (simp add: round_half_even_def Let_def)

lemma rhe_mono:
  assumes "a \<le> b"
  shows "round_half_even a \<le> round_half_even b"
proof (cases "\<lfloor>a\<rfloor> = \<lfloor>b\<rfloor>")
  case True
  then have "a - of_int \<lfloor>a\<rfloor> \<le> b - of_int \<lfloor>b\<rfloor>"
    using assms by simp
  then show ?thesis
    using True by (auto simp: round_half_even_def Let_def)
next
  case False
  then have "\<lfloor>a\<rfloor> + 1 \<le> \<lfloor>b\<rfloor>"
    using assms floor_mono [of a b] by linarith
  then show ?thesis
    using rhe_bounds [of a] rhe_bounds [of b] by linarith
qed

lemma rhe_minus: "round_half_even (- a) = - round_half_even a"
proof (cases "a = of_int \<lfloor>a\<rfloor>")
  case True
  then obtain k where "a = of_int k" ..
  then show ?thesis
    using rhe_of_int [of k] rhe_of_int [of "- k"] by simp
next
  case False
  then have "\<lceil>a\<rceil> = \<lfloor>a\<rfloor> + 1"
    by (simp add: ceiling_altdef)
  then have fl: "\<lfloor>- a\<rfloor> = - \<lfloor>a\<rfloor> - 1"
    unfolding ceiling_def by linarith
  show ?thesis
    unfolding round_half_even_def Let_def fl
    by (auto simp: algebra_simps)
qed

lemma two_power_le_of_int: "2 ^ m \<le> (n::int) \<Longrightarrow> (2::rat) ^ m \<le> of_int n"
  by (metis of_int_le_iff of_int_numeral of_int_power)

lemma of_int_less_two_power: "(n::int) < 2 ^ m \<Longrightarrow> (of_int n :: rat) + 1 \<le> 2 ^ m"
proof -
  assume "n < 2 ^ m"
  then have "n + 1 \<le> 2 ^ m" by simp
  then have "(of_int (n + 1) :: rat) \<le> of_int (2 ^ m)" by (simp only: of_int_le_iff)
  then show ?thesis by simp
qed

text \<open>\<open>ilog2 x\<close> is the binary exponent of a positive \<open>x\<close>.\<close>

lemma ilog2_bounds:
  assumes "0 < x"
  shows "2 powi ilog2 x \<le> x \<and> x < 2 powi (ilog2 x + 1)"
proof (cases "1 \<le> x")
  case True
  define n where "n = \<lfloor>x\<rfloor>"
  have n: "0 < n" using True by (simp add: n_def)
  have b: "1 \<le> bitlen n" using n bitlen_eq_zero_iff [of n] bitlen_nonneg [of n] by linarith
  have il: "ilog2 x = bitlen n - 1" using True by (simp add: ilog2_def n_def)
  have lo: "(2::rat) powi (bitlen n - 1) = 2 ^ nat (bitlen n - 1)"
    using b by (simp add: power_int_nonneg_exp)
  have hi: "(2::rat) powi (bitlen n - 1 + 1) = 2 ^ nat (bitlen n)"
    using b by (simp add: power_int_nonneg_exp)
  have x: "of_int n \<le> x" "x < of_int n + 1"
    using floor_correct [of x] by (simp_all add: n_def)
  have l: "(2::rat) ^ nat (bitlen n - 1) \<le> of_int n"
    using bitlen_bounds [OF n] by (simp add: two_power_le_of_int)
  have h: "(of_int n :: rat) + 1 \<le> 2 ^ nat (bitlen n)"
    using bitlen_bounds [OF n] by (simp add: of_int_less_two_power)
  show ?thesis
    unfolding il lo hi using x l h by linarith
next
  case False
  define y where "y = 1 / x"
  define n where "n = \<lceil>y\<rceil> - 1"
  define k where "k = bitlen n"
  have y: "1 < y" using False assms by (simp add: y_def)
  have n: "0 < n" using y by (simp add: n_def less_ceiling_iff)
  have k: "1 \<le> k"
    using n bitlen_eq_zero_iff [of n] bitlen_nonneg [of n] unfolding k_def by linarith
  have il: "ilog2 x = - k" using False by (simp add: ilog2_def n_def y_def k_def)
  have yn: "of_int n < y" "y \<le> of_int n + 1"
    using ceiling_correct [of y] by (simp_all add: n_def)
  have l: "(2::rat) ^ nat (k - 1) \<le> of_int n"
    using bitlen_bounds [OF n] unfolding k_def by (simp add: two_power_le_of_int)
  have h: "(of_int n :: rat) + 1 \<le> 2 ^ nat k"
    using bitlen_bounds [OF n] unfolding k_def by (simp add: of_int_less_two_power)
  have yb: "2 ^ nat (k - 1) < y" "y \<le> 2 ^ nat k"
    using yn l h by linarith+
  have p1: "(2::rat) powi (- k) = 1 / 2 ^ nat k"
    using k by (simp add: power_int_minus_divide power_int_nonneg_exp)
  have p2: "(2::rat) powi (- k + 1) = 1 / 2 ^ nat (k - 1)"
    using k power_int_minus_divide [of "2::rat" "k - 1"] by (simp add: power_int_nonneg_exp)
  have "1 / 2 ^ nat k \<le> x"
    using yb(2) assms by (simp add: y_def field_simps)
  moreover have "x < 1 / 2 ^ nat (k - 1)"
    using yb(1) assms by (simp add: y_def field_simps)
  ultimately show ?thesis
    unfolding il p1 p2 by simp
qed

lemma ilog2_mono:
  assumes "0 < x" "x \<le> y"
  shows "ilog2 x \<le> ilog2 y"
proof -
  have lt: "(2::rat) powi ilog2 x < 2 powi (ilog2 y + 1)"
    using ilog2_bounds [of x] ilog2_bounds [of y] assms by linarith
  have "ilog2 x < ilog2 y + 1"
  proof (rule ccontr)
    assume "\<not> ilog2 x < ilog2 y + 1"
    then have "(2::rat) powi (ilog2 y + 1) \<le> 2 powi ilog2 x"
      by (intro power_int_increasing) simp_all
    with lt show False by simp
  qed
  then show ?thesis by simp
qed

lemma ulp_pos: "0 < ulp x"
  by (simp add: ulp_def)

lemma float64_minus: "float64 (- x) = - float64 x"
  by (simp add: float64_def ulp_def rhe_minus)

lemma float64_nonneg:
  assumes "0 \<le> x"
  shows "0 \<le> float64 x"
proof -
  have "0 \<le> x / ulp x" using assms ulp_pos [of x] by simp
  then have "0 \<le> \<lfloor>x / ulp x\<rfloor>" by simp
  then have "0 \<le> round_half_even (x / ulp x)"
    using rhe_bounds [of "x / ulp x"] by linarith
  then show ?thesis
    using ulp_pos [of x] by (simp add: float64_def)
qed

text \<open>A positive value is rounded within its binade, the upper end included.\<close>

lemma float64_upper:
  assumes "0 < x"
  shows "float64 x \<le> 2 powi (max (ilog2 x) (- 1022) + 1)"
proof -
  define E where "E = max (ilog2 x) (- 1022)"
  have u: "ulp x = 2 powi (E - 52)" using assms by (simp add: ulp_def E_def)
  have "x < 2 powi (ilog2 x + 1)" using ilog2_bounds [OF assms] by simp
  also have "\<dots> \<le> 2 powi (E + 1)"
    by (rule power_int_increasing) (simp_all add: E_def)
  finally have "x / ulp x \<le> 2 powi (E + 1) / 2 powi (E - 52)"
    unfolding u by (simp add: divide_right_mono)
  also have "(2::rat) powi (E + 1) / 2 powi (E - 52) = 2 powi 53"
    by (simp add: power_int_diff [symmetric] del: power_int_numeral)
  finally have "x / ulp x \<le> of_int (2 ^ 53)" by simp
  then have "round_half_even (x / ulp x) \<le> 2 ^ 53"
    using rhe_mono [of "x / ulp x" "of_int (2 ^ 53)"] by (simp only: rhe_of_int)
  then have "(of_int (round_half_even (x / ulp x)) :: rat) \<le> of_int (2 ^ 53)"
    by (simp only: of_int_le_iff)
  then have "of_int (round_half_even (x / ulp x)) * ulp x \<le> of_int (2 ^ 53) * ulp x"
    using ulp_pos [of x] by (simp add: mult_right_mono)
  also have "of_int (2 ^ 53) * ulp x = 2 powi 53 * 2 powi (E - 52)"
    unfolding u by simp
  also have "\<dots> = 2 powi (E + 1)"
    by (simp add: power_int_add [symmetric] add.commute del: power_int_numeral)
  finally show ?thesis
    using assms by (simp add: float64_def E_def)
qed

lemma float64_lower:
  assumes "0 < x" "- 1022 \<le> ilog2 x"
  shows "2 powi ilog2 x \<le> float64 x"
proof -
  define E where "E = ilog2 x"
  have u: "ulp x = 2 powi (E - 52)" using assms by (simp add: ulp_def E_def max_def)
  have "2 powi E / 2 powi (E - 52) \<le> x / ulp x"
    unfolding u using ilog2_bounds [OF assms(1)] by (simp add: divide_right_mono E_def)
  moreover have "(2::rat) powi E / 2 powi (E - 52) = 2 powi 52"
    by (simp add: power_int_diff [symmetric] del: power_int_numeral)
  ultimately have "of_int (2 ^ 52) \<le> x / ulp x" by simp
  then have "2 ^ 52 \<le> round_half_even (x / ulp x)"
    using rhe_mono [of "of_int (2 ^ 52)" "x / ulp x"] by (simp only: rhe_of_int)
  then have "(of_int (2 ^ 52) :: rat) \<le> of_int (round_half_even (x / ulp x))"
    by (simp only: of_int_le_iff)
  then have "of_int (2 ^ 52) * ulp x \<le> of_int (round_half_even (x / ulp x)) * ulp x"
    using ulp_pos [of x] by (simp add: mult_right_mono)
  moreover have "of_int (2 ^ 52) * ulp x = 2 powi 52 * 2 powi (E - 52)"
    unfolding u by simp
  moreover have "(2::rat) powi 52 * 2 powi (E - 52) = 2 powi E"
    by (simp add: power_int_add [symmetric] del: power_int_numeral)
  ultimately show ?thesis
    using assms by (simp add: float64_def E_def)
qed

lemma float64_mono_pos:
  assumes "0 < x" "x \<le> y"
  shows "float64 x \<le> float64 y"
proof -
  define Ex where "Ex = max (ilog2 x) (- 1022)"
  define Ey where "Ey = max (ilog2 y) (- 1022)"
  have y: "0 < y" using assms by simp
  have le: "Ex \<le> Ey" using ilog2_mono [OF assms] by (simp add: Ex_def Ey_def)
  show ?thesis
  proof (cases "Ex = Ey")
    case True
    then have u: "ulp x = ulp y" using assms y by (simp add: ulp_def Ex_def Ey_def)
    have "x / ulp y \<le> y / ulp y"
      using assms ulp_pos [of y] by (simp add: divide_right_mono)
    then have "round_half_even (x / ulp y) \<le> round_half_even (y / ulp y)"
      by (rule rhe_mono)
    then have "(of_int (round_half_even (x / ulp y)) :: rat)
        \<le> of_int (round_half_even (y / ulp y))"
      by (simp only: of_int_le_iff)
    then have "of_int (round_half_even (x / ulp y)) * ulp y
        \<le> of_int (round_half_even (y / ulp y)) * ulp y"
      using ulp_pos [of y] by (simp add: mult_right_mono)
    then show ?thesis
      using assms y by (simp add: float64_def u)
  next
    case False
    then have lt: "Ex + 1 \<le> Ey" using le by simp
    then have ey: "Ey = ilog2 y" "- 1022 \<le> ilog2 y"
      by (simp_all add: Ex_def Ey_def max_def split: if_splits)
    have "float64 x \<le> 2 powi (Ex + 1)"
      using float64_upper [OF assms(1)] by (simp add: Ex_def)
    also have "\<dots> \<le> 2 powi Ey"
      using lt by (intro power_int_increasing) simp_all
    also have "\<dots> \<le> float64 y"
      using float64_lower [OF y ey(2)] by (simp add: ey(1))
    finally show ?thesis .
  qed
qed

text \<open>Rounding to the nearest double is monotone.\<close>

lemma float64_mono:
  assumes "x \<le> y"
  shows "float64 x \<le> float64 y"
proof -
  consider "0 < x" | "x \<le> 0" "0 \<le> y" | "y < 0" by linarith
  then show ?thesis
  proof cases
    case 1
    then show ?thesis using assms by (rule float64_mono_pos)
  next
    case 2
    have "float64 x \<le> 0"
      using float64_nonneg [of "- x"] 2(1) by (simp add: float64_minus)
    then show ?thesis using float64_nonneg [OF 2(2)] by linarith
  next
    case 3
    then have "float64 (- y) \<le> float64 (- x)"
      using assms by (intro float64_mono_pos) simp_all
    then show ?thesis by (simp add: float64_minus)
  qed
qed

text \<open>An integer below \<open>2 ^ 53\<close> in magnitude is a double.\<close>

lemma float64_of_int:
  assumes "\<bar>k\<bar> < 2 ^ 53"
  shows "float64 (of_int k) = of_int k"
proof (cases "k = 0")
  case True
  then show ?thesis by (simp add: float64_def)
next
  case False
  define x :: rat where "x = of_int \<bar>k\<bar>"
  have x: "1 \<le> x" using False by (simp add: x_def)
  have xpos: "0 < x" using x by simp
  define e where "e = ilog2 x"
  have e0: "0 \<le> e"
  proof (rule ccontr)
    assume "\<not> 0 \<le> e"
    then have "(2::rat) powi (e + 1) \<le> 2 powi 0"
      by (intro power_int_increasing) simp_all
    then show False
      using ilog2_bounds [OF xpos] x unfolding e_def by simp
  qed
  have "x < of_int (2 ^ 53)"
    unfolding x_def using assms by (simp only: of_int_less_iff)
  then have lt: "(2::rat) powi e < 2 powi 53"
    using ilog2_bounds [OF xpos] unfolding e_def by simp
  have e52: "e \<le> 52"
  proof (rule ccontr)
    assume "\<not> e \<le> 52"
    then have "(2::rat) powi 53 \<le> 2 powi e"
      by (intro power_int_increasing) simp_all
    with lt show False by simp
  qed
  define m where "m = nat (52 - e)"
  have "e - 52 = - int m" using e52 by (simp add: m_def)
  then have "(2::rat) powi (e - 52) = 1 / 2 ^ m"
    by (simp add: power_int_minus_divide)
  then have u: "ulp (of_int k) = 1 / 2 ^ m"
    using e0 by (simp add: ulp_def e_def x_def max_def)
  have "(of_int k :: rat) / ulp (of_int k) = of_int (k * 2 ^ m)"
    unfolding u by simp
  then have "round_half_even (of_int k / ulp (of_int k)) = k * 2 ^ m"
    by (simp only: rhe_of_int)
  then show ?thesis
    using False by (simp add: float64_def u)
qed

section \<open>The status of a tracked secret\<close>

text \<open>
  Claim C1. For a tracked secret with day-count \<open>d\<close> and warning threshold \<open>w\<close> in whole
  days, \<open>emitExpirationEvent\<close> records exactly one event; its reason is
  \<^verbatim>\<open>SecretExpired\<close> if and only if \<open>d < 0\<close>, \<^verbatim>\<open>SecretExpiringSoon\<close> if and only if
  \<open>0 \<le> d \<le> w\<close>, and \<^verbatim>\<open>SecretValid\<close> in every other case and only then.
\<close>

theorem C1_status_partition:
  fixes secret :: Secret and info :: SecretInfo
  defines "d \<equiv> DaysUntilExp info"
    and "w \<equiv> warnThresholdDays info"
    and "status \<equiv> event_reasons (emitExpirationEvent secret info)"
  shows "(status = [''SecretExpired''] \<longleftrightarrow> d < 0)
       \<and> (status = [''SecretExpiringSoon''] \<longleftrightarrow> 0 \<le> d \<and> d \<le> w)
       \<and> (status = [''SecretValid''] \<longleftrightarrow> \<not> d < 0 \<and> \<not> (0 \<le> d \<and> d \<le> w))
       \<and> (status = [''SecretExpired''] \<or> status = [''SecretExpiringSoon'']
            \<or> status = [''SecretValid''])"
  unfolding d_def w_def status_def
  by (simp add: emitExpirationEvent_def)

text \<open>Four days before expiry, with the lead time of 7 days: expiring soon.\<close>

theorem C1_status_partition_witness:
  "event_reasons (emitExpirationEvent example_secret
      \<lparr>SecretInfo.Name = ''db-password'', Namespace = ''default'',
       ExpiresAt = date_2024_12_31, WarnBefore = 7 * 24 * Hour, DaysUntilExp = 4\<rparr>)
   = [''SecretExpiringSoon'']"
proof -
  let ?info = "\<lparr>SecretInfo.Name = ''db-password'', Namespace = ''default'',
       ExpiresAt = date_2024_12_31, WarnBefore = 7 * 24 * Hour, DaysUntilExp = 4\<rparr>"
  have w: "warnThresholdDays ?info = 7" by code_simp
  show ?thesis
    using C1_status_partition [of example_secret ?info] w by simp
qed

section \<open>The day-count as a function of the duration\<close>

text \<open>
  Both \<open>DaysUntilExp\<close> and the warning threshold are \<^verbatim>\<open>int(d.Hours() / 24)\<close> of a
  duration \<open>d\<close>. The lemmas of this section follow the float64 computation step by step.
\<close>

lemma go_int_mono:
  assumes "x \<le> y"
  shows "go_int x \<le> go_int y"
proof -
  consider "0 \<le> x" | "x < 0" "0 \<le> y" | "y < 0" by linarith
  then show ?thesis
  proof cases
    case 1
    then show ?thesis using assms by (simp add: go_int_def floor_mono)
  next
    case 2
    have "\<lceil>x\<rceil> \<le> 0" using 2(1) by (simp add: ceiling_le_iff)
    moreover have "0 \<le> \<lfloor>y\<rfloor>" using 2(2) by simp
    ultimately have "\<lceil>x\<rceil> \<le> \<lfloor>y\<rfloor>" by linarith
    then show ?thesis using 2 by (simp add: go_int_def)
  next
    case 3
    then show ?thesis using assms by (simp add: go_int_def ceiling_mono)
  qed
qed

lemma go_int_of_int: "go_int (of_int k) = k"
  by (simp add: go_int_def)

lemma float64_0: "float64 0 = 0"
  by (simp add: float64_def)

lemma float64_1: "float64 1 = 1"
  using float64_of_int [of 1] by simp

lemma float64_m1: "float64 (- 1) = - 1"
  using float64_of_int [of "- 1"] by simp

text \<open>Division and remainder by \<open>Hour\<close>, truncated toward zero.\<close>

lemma sdiv_Hour:
  "d sdiv Hour = (if 0 \<le> d then d div Hour else - ((- d) div Hour))"
  by (auto simp: signed_divide_int_def Hour_def sgn_if)

lemma smod_Hour:
  "d smod Hour = (if 0 \<le> d then d mod Hour else - ((- d) mod Hour))"
  by (auto simp: signed_modulo_int_def Hour_def sgn_if)

lemma sdiv_Hour_mono:
  assumes "d \<le> e"
  shows "d sdiv Hour \<le> e sdiv Hour"
proof -
  have H: "0 < Hour" by (simp add: Hour_def)
  consider "0 \<le> d" | "d < 0" "0 \<le> e" | "e < 0" by linarith
  then show ?thesis
  proof cases
    case 1
    then show ?thesis using assms H by (simp add: sdiv_Hour zdiv_mono1)
  next
    case 2
    have "0 \<le> (- d) div Hour" using 2(1) H by (simp add: pos_imp_zdiv_nonneg_iff)
    moreover have "0 \<le> e div Hour" using 2(2) H by (simp add: pos_imp_zdiv_nonneg_iff)
    ultimately show ?thesis using 2 by (simp add: sdiv_Hour)
  next
    case 3
    have "(- e) div Hour \<le> (- d) div Hour"
      using assms H by (intro zdiv_mono1) simp_all
    then show ?thesis using 3 assms by (simp add: sdiv_Hour)
  qed
qed

lemma smod_Hour_nonneg: "0 \<le> d \<Longrightarrow> 0 \<le> d smod Hour \<and> d smod Hour < Hour"
  by (simp add: smod_Hour) (simp add: Hour_def)

lemma smod_Hour_nonpos: "d \<le> 0 \<Longrightarrow> - Hour < d smod Hour \<and> d smod Hour \<le> 0"
proof -
  assume d: "d \<le> 0"
  have "0 \<le> (- d) mod Hour \<and> (- d) mod Hour < Hour" by (simp add: Hour_def)
  then show ?thesis using d by (auto simp: smod_Hour)
qed

lemma sdiv_smod_Hour: "d = (d sdiv Hour) * Hour + d smod Hour"
  by (simp add: sdiv_mult_smod_eq)


text \<open>\<open>Hours\<close> with the two conversions from int64 removed: both are exact.\<close>

lemma Duration_Hours_eq:
  assumes "\<bar>d\<bar> \<le> 2 ^ 64"
  shows "Duration_Hours d =
    float64 (of_int (d sdiv Hour) + float64 (of_int (d smod Hour) / 3600000000000))"
proof -
  have "\<bar>d sdiv Hour\<bar> \<le> \<bar>d\<bar> div Hour"
    by (simp add: signed_divide_int_def Hour_def abs_mult sgn_if)
  also have "\<dots> \<le> 2 ^ 64 div Hour"
    using assms by (intro zdiv_mono1) (simp_all add: Hour_def)
  also have "\<dots> < 2 ^ 53" by (simp add: Hour_def)
  finally have h: "float64 (of_int (d sdiv Hour)) = of_int (d sdiv Hour)"
    by (rule float64_of_int)
  have "\<bar>d smod Hour\<bar> < Hour"
    using smod_Hour_nonneg [of d] smod_Hour_nonpos [of d] by linarith
  then have "\<bar>d smod Hour\<bar> < 2 ^ 53" by (simp add: Hour_def)
  then have n: "float64 (of_int (d smod Hour)) = of_int (d smod Hour)"
    by (rule float64_of_int)
  show ?thesis
    by (simp add: Duration_Hours_def Let_def f64_add_def f64_of_int_def f64_div_def h n)
qed

text \<open>The fraction of an hour has the sign of the duration and is at most 1 in magnitude.\<close>

lemma hours_fraction_nonneg:
  fixes d :: int
  defines "f \<equiv> float64 (of_int (d smod Hour) / 3600000000000)"
  assumes "0 \<le> d"
  shows "0 \<le> f \<and> f \<le> 1"
proof -
  have n: "0 \<le> d smod Hour" "d smod Hour < Hour"
    using assms(2) smod_Hour_nonneg by simp_all
  have "(0::rat) \<le> of_int (d smod Hour) / 3600000000000"
    using n(1) by simp
  moreover have "(of_int (d smod Hour) :: rat) / 3600000000000 \<le> 1"
    using n(2) by (simp add: Hour_def)
  ultimately show ?thesis
    unfolding f_def using float64_mono float64_0 float64_1 by metis
qed

lemma hours_fraction_nonpos:
  fixes d :: int
  defines "f \<equiv> float64 (of_int (d smod Hour) / 3600000000000)"
  assumes "d \<le> 0"
  shows "- 1 \<le> f \<and> f \<le> 0"
proof -
  have n: "- Hour < d smod Hour" "d smod Hour \<le> 0"
    using assms(2) smod_Hour_nonpos by simp_all
  have "(of_int (d smod Hour) :: rat) / 3600000000000 \<le> 0"
    using n(2) by simp
  moreover have "- 1 \<le> (of_int (d smod Hour) :: rat) / 3600000000000"
    using n(1) by (simp add: Hour_def)
  ultimately show ?thesis
    unfolding f_def using float64_mono float64_0 float64_m1 by metis
qed

text \<open>\<open>Hours\<close> is monotone on the durations, and beyond them.\<close>

lemma Duration_Hours_mono:
  assumes "\<bar>d\<bar> \<le> 2 ^ 64" "\<bar>e\<bar> \<le> 2 ^ 64" "d \<le> e"
  shows "Duration_Hours d \<le> Duration_Hours e"
proof -
  define fd where "fd = float64 (of_int (d smod Hour) / 3600000000000)"
  define fe where "fe = float64 (of_int (e smod Hour) / 3600000000000)"
  have eq: "Duration_Hours d = float64 (of_int (d sdiv Hour) + fd)"
    "Duration_Hours e = float64 (of_int (e sdiv Hour) + fe)"
    using assms by (simp_all add: Duration_Hours_eq fd_def fe_def)
  have le: "d sdiv Hour \<le> e sdiv Hour"
    using assms(3) by (rule sdiv_Hour_mono)
  have "(of_int (d sdiv Hour) :: rat) + fd \<le> of_int (e sdiv Hour) + fe"
  proof (cases "d sdiv Hour = e sdiv Hour")
    case True
    have "d smod Hour = d - e sdiv Hour * Hour" "e smod Hour = e - e sdiv Hour * Hour"
      using True by (simp_all add: minus_sdiv_mult_eq_smod [symmetric])
    then have "d smod Hour \<le> e smod Hour"
      using assms(3) by linarith
    then have "(of_int (d smod Hour) :: rat) / 3600000000000
        \<le> of_int (e smod Hour) / 3600000000000"
      by (simp add: divide_right_mono)
    then have "fd \<le> fe"
      unfolding fd_def fe_def by (rule float64_mono)
    then show ?thesis using True by simp
  next
    case False
    then have "d sdiv Hour + 1 \<le> e sdiv Hour" using le by simp
    then have lt: "(of_int (d sdiv Hour) :: rat) + 1 \<le> of_int (e sdiv Hour)"
      by (metis of_int_le_iff of_int_add of_int_1)
    show ?thesis
    proof (cases "0 \<le> d")
      case True
      then have "fd \<le> 1" "0 \<le> fe"
        using hours_fraction_nonneg [of d] hours_fraction_nonneg [of e] assms(3)
        by (simp_all add: fd_def fe_def)
      then show ?thesis using lt by linarith
    next
      case False
      then have "fd \<le> 0"
        using hours_fraction_nonpos [of d] by (simp add: fd_def)
      moreover have "- 1 \<le> fe"
        using hours_fraction_nonpos [of e] hours_fraction_nonneg [of e]
        unfolding fe_def by linarith
      ultimately show ?thesis using lt by linarith
    qed
  qed
  then show ?thesis unfolding eq by (rule float64_mono)
qed

text \<open>The day-count as a function of the duration.\<close>

lemma days_mono:
  assumes "\<bar>d\<bar> \<le> 2 ^ 64" "\<bar>e\<bar> \<le> 2 ^ 64" "d \<le> e"
  shows "go_int (f64_div (Duration_Hours d) 24) \<le> go_int (f64_div (Duration_Hours e) 24)"
proof -
  have "Duration_Hours d / 24 \<le> Duration_Hours e / 24"
    using Duration_Hours_mono [OF assms] by (simp add: divide_right_mono)
  then show ?thesis
    unfolding f64_div_def by (intro go_int_mono float64_mono)
qed

lemma mult_sdiv_cancel: "0 < b \<Longrightarrow> (a * b) sdiv b = a" for a b :: int
  by (simp add: signed_divide_int_def abs_mult sgn_mult mult_sgn_abs)

lemma mult_smod_cancel: "(a * b) smod b = 0" for a b :: int
  by (simp add: signed_modulo_int_def abs_mult)

lemma days_whole:
  assumes "\<bar>n\<bar> \<le> 200000"
  shows "go_int (f64_div (Duration_Hours (n * (24 * Hour))) 24) = n"
proof -
  have r: "\<bar>n * (24 * Hour)\<bar> \<le> 2 ^ 64"
    using assms by (simp add: Hour_def abs_mult)
  have e: "n * (24 * Hour) = (24 * n) * Hour" by simp
  have q: "(n * (24 * Hour)) sdiv Hour = 24 * n"
    unfolding e by (rule mult_sdiv_cancel) (simp add: Hour_def)
  have m: "(n * (24 * Hour)) smod Hour = 0"
    unfolding e by (rule mult_smod_cancel)
  have "\<bar>24 * n\<bar> < 2 ^ 53" using assms by simp
  then have h: "Duration_Hours (n * (24 * Hour)) = of_int (24 * n)"
    unfolding Duration_Hours_eq [OF r] q m using float64_of_int [of "24 * n"]
    by (simp add: float64_0)
  have "\<bar>n\<bar> < 2 ^ 53" using assms by simp
  then have "f64_div (of_int (24 * n)) 24 = of_int n"
    unfolding f64_div_def using float64_of_int [of n] by simp
  then show ?thesis unfolding h by (simp only: go_int_of_int)
qed

lemma days_after_minus_day: "go_int (f64_div (Duration_Hours (- (24 * Hour) + 1)) 24) = 0"
  by code_simp


lemma Time_Sub_range: "minDuration \<le> Time_Sub t u \<and> Time_Sub t u \<le> maxDuration"
  by (simp add: Time_Sub_def Let_def minDuration_def maxDuration_def)

lemma Time_Sub_le_iff:
  "Time_Sub t u \<le> - (24 * Hour) \<longleftrightarrow> t - u \<le> - (24 * Hour)"
  by (simp add: Time_Sub_def Let_def minDuration_def maxDuration_def Hour_def)

lemma days_negative_iff:
  assumes "minDuration \<le> d" "d \<le> maxDuration"
  shows "go_int (f64_div (Duration_Hours d) 24) < 0 \<longleftrightarrow> d \<le> - (24 * Hour)"
proof -
  have r: "\<bar>d\<bar> \<le> 2 ^ 64"
    using assms by (simp add: minDuration_def maxDuration_def)
  show ?thesis
  proof (cases "d \<le> - (24 * Hour)")
    case True
    have "go_int (f64_div (Duration_Hours d) 24)
        \<le> go_int (f64_div (Duration_Hours (- 1 * (24 * Hour))) 24)"
      using True r by (intro days_mono) (simp_all add: Hour_def)
    also have "\<dots> = - 1" by (rule days_whole) simp
    finally show ?thesis using True by simp
  next
    case False
    then have "- (24 * Hour) + 1 \<le> d" by simp
    then have "go_int (f64_div (Duration_Hours (- (24 * Hour) + 1)) 24)
        \<le> go_int (f64_div (Duration_Hours d) 24)"
      using r by (intro days_mono) (simp_all add: Hour_def)
    then have "0 \<le> go_int (f64_div (Duration_Hours d) 24)"
      unfolding days_after_minus_day .
    then show ?thesis using False by simp
  qed
qed

lemma days_between_floor:
  assumes "minDuration \<le> d" "d \<le> maxDuration"
  shows "d div (24 * Hour) \<le> go_int (f64_div (Duration_Hours d) 24)
       \<and> go_int (f64_div (Duration_Hours d) 24) \<le> d div (24 * Hour) + 1"
proof -
  define F where "F = d div (24 * Hour)"
  have r: "\<bar>d\<bar> \<le> 2 ^ 64"
    using assms by (simp add: minDuration_def maxDuration_def)
  have D: "0 < 24 * Hour" by (simp add: Hour_def)
  have "minDuration div (24 * Hour) \<le> F" "F \<le> maxDuration div (24 * Hour)"
    unfolding F_def using assms D by (simp_all add: zdiv_mono1)
  then have F: "- 106752 \<le> F" "F \<le> 106751"
    by (simp_all add: minDuration_def maxDuration_def Hour_def)
  have dm: "d = F * (24 * Hour) + d mod (24 * Hour)"
    unfolding F_def by (rule div_mult_mod_eq [symmetric])
  have m: "0 \<le> d mod (24 * Hour)" "d mod (24 * Hour) < 24 * Hour"
    using D by simp_all
  have lo: "F * (24 * Hour) \<le> d"
    using dm m(1) by linarith
  have "(F + 1) * (24 * Hour) = F * (24 * Hour) + 24 * Hour"
    by (simp add: algebra_simps)
  then have hi: "d < (F + 1) * (24 * Hour)"
    using dm m(2) by linarith
  have "go_int (f64_div (Duration_Hours (F * (24 * Hour))) 24)
      \<le> go_int (f64_div (Duration_Hours d) 24)"
    using lo r F by (intro days_mono) (simp_all add: Hour_def abs_if)
  moreover have "go_int (f64_div (Duration_Hours d) 24)
      \<le> go_int (f64_div (Duration_Hours ((F + 1) * (24 * Hour))) 24)"
    using hi r F by (intro days_mono) (simp_all add: Hour_def abs_if)
  moreover have "go_int (f64_div (Duration_Hours (F * (24 * Hour))) 24) = F"
    using F by (intro days_whole) simp
  moreover have "go_int (f64_div (Duration_Hours ((F + 1) * (24 * Hour))) 24) = F + 1"
    using F by (intro days_whole) simp
  ultimately show ?thesis unfolding F_def by simp
qed

lemma days_truncated:
  assumes "minDuration \<le> d" "d \<le> maxDuration"
  shows "go_int (f64_div (Duration_Hours d) 24) = d sdiv (24 * Hour)
       \<or> go_int (f64_div (Duration_Hours d) 24) = d sdiv (24 * Hour) + sgn d"
proof -
  have D: "0 < 24 * Hour" by (simp add: Hour_def)
  note b = days_between_floor [OF assms]
  consider "0 < d" | "d = 0" | "d < 0" "24 * Hour dvd d" | "d < 0" "\<not> 24 * Hour dvd d"
    by linarith
  then show ?thesis
  proof cases
    case 1
    then have "d sdiv (24 * Hour) = d div (24 * Hour)"
      using D by (simp add: signed_divide_int_eq_divide_int)
    then show ?thesis using b 1 by auto
  next
    case 2
    then show ?thesis using days_whole [of 0] by simp
  next
    case 3
    then obtain n where n: "d = n * (24 * Hour)" by (metis dvd_def mult.commute)
    then have "\<bar>n\<bar> \<le> 200000"
      using assms by (simp add: minDuration_def maxDuration_def Hour_def)
    then have "go_int (f64_div (Duration_Hours d) 24) = n"
      unfolding n by (rule days_whole)
    moreover have "d sdiv (24 * Hour) = n"
      unfolding n using D by (rule mult_sdiv_cancel)
    ultimately show ?thesis by simp
  next
    case 4
    then have "d sdiv (24 * Hour) = d div (24 * Hour) + 1"
      using D by (simp add: signed_divide_int_eq_divide_int)
    then show ?thesis using b 4 by auto
  qed
qed

lemma parseSecretInfo_tracked:
  assumes "Annotations secret AnnotationExpiresAt = Some v" and "time_Parse l v = Inr expTime"
  shows "snd (parseSecretInfo l now secret)"
    and "DaysUntilExp (fst (parseSecretInfo l now secret))
       = go_int (f64_div (Duration_Hours (Time_Sub expTime now)) 24)"
  using assms by (simp_all add: parseSecretInfo_def Let_def)

text \<open>Where the float64 quotient is rounded up to a whole number, the count is one more.\<close>

lemma days_rounded_up:
  "go_int (f64_div (Duration_Hours (200 * (24 * Hour) - 1)) 24) = 200
   \<and> (200 * (24 * Hour) - 1) sdiv (24 * Hour) = 199"
  by code_simp

section \<open>The day-count of a tracked secret\<close>

text \<open>
  Claim C2, as amended. For a secret with a well-formed expiration annotation and every
  instant \<open>now\<close>, the secret is tracked and its day-count is the difference between the
  expiration instant and \<open>now\<close> (saturated to the range of a Duration), in hours divided
  by 24 in float64 and truncated toward zero: it is that difference divided by 24 hours
  and truncated toward zero, or one further from zero where the float64 quotient was
  rounded onto the next whole number. It is negative if and only if \<open>now\<close> is at least 24
  hours after the expiration instant.
\<close>

theorem C2_day_count_truncated:
  fixes l :: lib and now expTime :: Time and secret :: Secret
  assumes "Annotations secret AnnotationExpiresAt = Some v"
    and "time_Parse l v = Inr expTime"
  defines "days \<equiv> DaysUntilExp (fst (parseSecretInfo l now secret))"
    and "d \<equiv> Time_Sub expTime now"
  shows "snd (parseSecretInfo l now secret)
       \<and> days = go_int (f64_div (Duration_Hours d) 24)
       \<and> (days = d sdiv (24 * Hour) \<or> days = d sdiv (24 * Hour) + sgn d)
       \<and> (days < 0 \<longleftrightarrow> expTime - now \<le> - (24 * Hour))"
proof -
  have r: "minDuration \<le> d" "d \<le> maxDuration"
    using Time_Sub_range [of expTime now] by (simp_all add: d_def)
  have e: "days = go_int (f64_div (Duration_Hours d) 24)"
    unfolding days_def d_def using assms(1,2) by (rule parseSecretInfo_tracked(2))
  have "days < 0 \<longleftrightarrow> d \<le> - (24 * Hour)"
    unfolding e using r by (rule days_negative_iff)
  then have s: "days < 0 \<longleftrightarrow> expTime - now \<le> - (24 * Hour)"
    unfolding d_def Time_Sub_le_iff .
  have t: "days = d sdiv (24 * Hour) \<or> days = d sdiv (24 * Hour) + sgn d"
    unfolding e using r by (rule days_truncated)
  show ?thesis
    using parseSecretInfo_tracked(1) [OF assms(1,2)] e s t by simp
qed

text \<open>The secret that expires on 2024-12-31, read on 2025-01-05: 5 days ago.\<close>

theorem C2_day_count_truncated_witness:
  "DaysUntilExp (fst (parseSecretInfo example_lib (date_2024_12_31 + 5 * (24 * Hour))
      example_secret)) < 0"
proof -
  have a: "Annotations example_secret AnnotationExpiresAt = Some ''2024-12-31''"
    by (simp add: example_secret_def)
  have p: "time_Parse example_lib ''2024-12-31'' = Inr date_2024_12_31"
    by (simp add: example_lib_def)
  show ?thesis
    using C2_day_count_truncated [OF a p, of "date_2024_12_31 + 5 * (24 * Hour)"]
    by (simp add: Hour_def)
qed

text \<open>
  The claim as stated fails one hour after the expiration instant: the day-count is 0,
  where the floor of \<open>- 1 / 24\<close> is \<open>- 1\<close>, and it is not negative although \<open>now\<close> is after
  the expiration instant.
\<close>

theorem C2_floor_counterexample:
  "DaysUntilExp (fst (parseSecretInfo example_lib (date_2024_12_31 + Hour) example_secret)) = 0
   \<and> \<lfloor>(of_int (date_2024_12_31 - (date_2024_12_31 + Hour)) / of_int Hour :: rat) / 24\<rfloor> = - 1
   \<and> date_2024_12_31 < date_2024_12_31 + Hour"
  by code_simp

section \<open>Deduplication in the work queue\<close>

lemma wq_inv_empty: "wq_inv wq_empty"
  by (simp add: wq_inv_def wq_empty_def)

lemma wq_inv_add: "wq_inv q \<Longrightarrow> wq_inv (wq_add k q)"
  by (auto simp: wq_inv_def wq_add_def)

lemma wq_inv_get: "wq_inv q \<Longrightarrow> wq_get q = Some (k, q') \<Longrightarrow> wq_inv q'"
  by (auto simp: wq_inv_def wq_get_def split: list.splits)

lemma wq_inv_done: "wq_inv q \<Longrightarrow> wq_inv (wq_done k q)"
  by (auto simp: wq_inv_def wq_done_def)

lemma wq_inv_run: "wq_inv q \<Longrightarrow> wq_inv (snd (wq_run ops q))"
proof (induction ops q rule: wq_run.induct)
  case (4 ops q)
  then show ?case
    by (auto simp: wq_inv_get split: option.splits prod.splits)
qed (simp_all add: wq_inv_add wq_inv_done)

text \<open>Every state the queue reaches from its creation satisfies the invariant.\<close>

lemma wq_inv_reachable: "wq_inv (snd (wq_run ops wq_empty))"
  using wq_inv_empty by (rule wq_inv_run)

text \<open>While \<open>k\<close> stays in flight, no \<open>get\<close> delivers it, and it is dirty at the end exactly
  when it was at the start or an \<open>add\<close> of it came in between.\<close>

lemma wq_run_inflight:
  assumes "wq_inv q" "k \<in> inflight q" "Done k \<notin> set ops"
  shows "k \<notin> set (fst (wq_run ops q))
       \<and> k \<in> inflight (snd (wq_run ops q))
       \<and> k \<notin> set (pending (snd (wq_run ops q)))
       \<and> (k \<in> dirty (snd (wq_run ops q)) \<longleftrightarrow> k \<in> dirty q \<or> Add k \<in> set ops)"
  using assms
proof (induction ops q rule: wq_run.induct)
  case (1 q)
  then show ?case by (auto simp: wq_inv_def)
next
  case (2 j ops q)
  have "wq_inv (wq_add j q)" using 2(2) by (rule wq_inv_add)
  moreover have "k \<in> inflight (wq_add j q)" using 2(3) by (simp add: wq_add_def)
  moreover have "Done k \<notin> set ops" using 2(4) by simp
  ultimately have "k \<notin> set (fst (wq_run ops (wq_add j q)))
       \<and> k \<in> inflight (snd (wq_run ops (wq_add j q)))
       \<and> k \<notin> set (pending (snd (wq_run ops (wq_add j q))))
       \<and> (k \<in> dirty (snd (wq_run ops (wq_add j q))) \<longleftrightarrow> k \<in> dirty (wq_add j q) \<or> Add k \<in> set ops)"
    by (rule 2(1))
  moreover have "k \<in> dirty (wq_add j q) \<longleftrightarrow> k \<in> dirty q \<or> j = k"
    using 2(2,3) by (auto simp: wq_add_def wq_inv_def)
  ultimately show ?case by auto
next
  case (3 j ops q)
  have jk: "j \<noteq> k" using 3(4) by auto
  have "wq_inv (wq_done j q)" using 3(2) by (rule wq_inv_done)
  moreover have "k \<in> inflight (wq_done j q)" using 3(3) jk by (simp add: wq_done_def)
  moreover have "Done k \<notin> set ops" using 3(4) by simp
  ultimately have "k \<notin> set (fst (wq_run ops (wq_done j q)))
       \<and> k \<in> inflight (snd (wq_run ops (wq_done j q)))
       \<and> k \<notin> set (pending (snd (wq_run ops (wq_done j q))))
       \<and> (k \<in> dirty (snd (wq_run ops (wq_done j q))) \<longleftrightarrow> k \<in> dirty (wq_done j q) \<or> Add k \<in> set ops)"
    by (rule 3(1))
  moreover have "k \<in> dirty (wq_done j q) \<longleftrightarrow> k \<in> dirty q"
    using jk by (auto simp: wq_done_def)
  ultimately show ?case by auto
next
  case (4 ops q)
  show ?case
  proof (cases "wq_get q")
    case None
    then show ?thesis using 4 by simp
  next
    case (Some a)
    obtain j q' where a: "a = (j, q')" by (cases a)
    have g: "wq_get q = Some (j, q')" using Some a by simp
    have jk: "j \<noteq> k" using g 4(3,4) by (auto simp: wq_get_def wq_inv_def split: list.splits)
    have "wq_inv q'" using 4(3) g by (rule wq_inv_get)
    moreover have "k \<in> inflight q'" using g 4(4) by (auto simp: wq_get_def split: list.splits)
    moreover have "Done k \<notin> set ops" using 4(5) by simp
    ultimately have "k \<notin> set (fst (wq_run ops q'))
       \<and> k \<in> inflight (snd (wq_run ops q'))
       \<and> k \<notin> set (pending (snd (wq_run ops q')))
       \<and> (k \<in> dirty (snd (wq_run ops q')) \<longleftrightarrow> k \<in> dirty q' \<or> Add k \<in> set ops)"
      by (rule 4(2) [OF g refl])
    moreover have "k \<in> dirty q' \<longleftrightarrow> k \<in> dirty q"
      using g by (auto simp: wq_get_def split: list.splits)
    ultimately show ?thesis using g jk by (auto split: prod.splits)
  qed
qed


lemma wq_add_idem: "wq_add k (wq_add k q) = wq_add k q"
  by (simp add: wq_add_def)

lemma wq_run_adds: "0 < n \<Longrightarrow> wq_run (replicate n (Add k) @ ops) q = wq_run ops (wq_add k q)"
proof (induction n arbitrary: q)
  case 0
  then show ?case by simp
next
  case (Suc n)
  show ?case
  proof (cases "n = 0")
    case True
    then show ?thesis by simp
  next
    case False
    then have "wq_run (replicate n (Add k) @ ops) (wq_add k q) = wq_run ops (wq_add k (wq_add k q))"
      using Suc.IH by simp
    then show ?thesis by (simp add: wq_add_idem)
  qed
qed

lemma wq_run_gets: "fst (wq_run (replicate m Get) q) = take m (pending q)"
proof (induction m arbitrary: q)
  case 0
  then show ?case by simp
next
  case (Suc m)
  show ?case
  proof (cases "pending q")
    case Nil
    then show ?thesis using Suc.IH [of q] by (simp add: wq_get_def)
  next
    case (Cons k ks)
    then show ?thesis
      using Suc.IH [of "q\<lparr>pending := ks, inflight := insert k (inflight q)\<rparr>"]
      by (simp add: wq_get_def split_beta)
  qed
qed

lemma wq_run_append:
  "wq_run (ops @ ops') q =
     (fst (wq_run ops q) @ fst (wq_run ops' (snd (wq_run ops q))),
      snd (wq_run ops' (snd (wq_run ops q))))"
  by (induction ops q rule: wq_run.induct) (auto split: option.splits prod.splits)

lemma count_list_1: "distinct xs \<Longrightarrow> x \<in> set xs \<Longrightarrow> count_list xs x = 1"
  by (induction xs) auto

lemma count_list_0: "x \<notin> set xs \<Longrightarrow> count_list xs x = 0"
  by (induction xs) auto

lemma wq_add_pending_once:
  assumes "wq_inv q" "k \<notin> inflight q"
  shows "count_list (pending (wq_add k q)) k = 1"
proof -
  have "wq_inv (wq_add k q)" using assms(1) by (rule wq_inv_add)
  then have "distinct (pending (wq_add k q))" by (simp add: wq_inv_def)
  moreover have "k \<in> set (pending (wq_add k q))"
    using assms(2) by (simp add: wq_add_def)
  ultimately show ?thesis by (rule count_list_1)
qed

text \<open>
  Claim C3, on the queue as the spec describes it. In a state that satisfies the
  invariant: \<open>add\<close> of a pending key changes nothing; any number \<open>n > 0\<close> of \<open>add\<close>s of a
  key that is not in flight leaves the queue as one \<open>add\<close> does, with the key pending
  exactly once, so the \<open>get\<close>s that follow deliver what they deliver after one \<open>add\<close>;
  and for a key in flight, a history without its \<open>done\<close> and with at least one \<open>add\<close> of
  it delivers the key to no one, and the \<open>done\<close> that follows leaves it pending exactly
  once, out of flight and clean. The \<open>get\<close>s of a history deliver the pending keys in
  order, each pending key to one \<open>get\<close>.
\<close>

theorem C3_dedup:
  assumes "wq_inv q"
  shows "(k \<in> set (pending q) \<longrightarrow> wq_add k q = q)
       \<and> (k \<notin> inflight q \<and> 0 < n \<longrightarrow>
            snd (wq_run (replicate n (Add k)) q) = wq_add k q
            \<and> count_list (pending (wq_add k q)) k = 1
            \<and> fst (wq_run (replicate n (Add k) @ replicate m Get) q)
                = take m (pending (wq_add k q)))
       \<and> (k \<in> inflight q \<and> Done k \<notin> set ops \<and> Add k \<in> set ops \<longrightarrow>
            k \<notin> set (fst (wq_run (ops @ [Done k]) q))
            \<and> count_list (pending (snd (wq_run (ops @ [Done k]) q))) k = 1
            \<and> k \<notin> inflight (snd (wq_run (ops @ [Done k]) q))
            \<and> k \<notin> dirty (snd (wq_run (ops @ [Done k]) q)))
       \<and> fst (wq_run (replicate m Get) q) = take m (pending q)"
proof (intro conjI impI)
  show "wq_add k q = q" if "k \<in> set (pending q)"
    using that by (simp add: wq_add_def)
next
  assume a: "k \<notin> inflight q \<and> 0 < n"
  show "snd (wq_run (replicate n (Add k)) q) = wq_add k q"
    using a wq_run_adds [of n k "[]" q] by simp
  show "count_list (pending (wq_add k q)) k = 1"
    using assms a by (simp add: wq_add_pending_once)
  show "fst (wq_run (replicate n (Add k) @ replicate m Get) q) = take m (pending (wq_add k q))"
    using a by (simp add: wq_run_adds wq_run_gets)
next
  assume a: "k \<in> inflight q \<and> Done k \<notin> set ops \<and> Add k \<in> set ops"
  define q' where "q' = snd (wq_run ops q)"
  have r: "k \<notin> set (fst (wq_run ops q))" "k \<in> inflight q'" "k \<notin> set (pending q')"
    "k \<in> dirty q'"
    using wq_run_inflight [of q k ops] assms a by (simp_all add: q'_def)
  have e: "wq_run (ops @ [Done k]) q = (fst (wq_run ops q), wq_done k q')"
    by (simp add: wq_run_append q'_def)
  show "k \<notin> set (fst (wq_run (ops @ [Done k]) q))"
    unfolding e using r(1) by simp
  show "count_list (pending (snd (wq_run (ops @ [Done k]) q))) k = 1"
    unfolding e using r(3,4) by (simp add: wq_done_def count_list_0)
  show "k \<notin> inflight (snd (wq_run (ops @ [Done k]) q))"
    unfolding e by (simp add: wq_done_def)
  show "k \<notin> dirty (snd (wq_run (ops @ [Done k]) q))"
    unfolding e using r(4) by (simp add: wq_done_def)
next
  show "fst (wq_run (replicate m Get) q) = take m (pending q)"
    by (rule wq_run_gets)
qed

text \<open>
  An \<open>add\<close> of a pending key. Three \<open>add\<close>s and two \<open>get\<close>s on the empty queue: one
  delivery. Two \<open>add\<close>s of a key in flight, with an \<open>add\<close> of another key between them:
  the key is pending once after its \<open>done\<close>.
\<close>

theorem C3_dedup_witness:
  "wq_add ''default/a'' (wq_add ''default/a'' wq_empty) = wq_add ''default/a'' wq_empty
   \<and> fst (wq_run (replicate 3 (Add ''default/a'') @ replicate 2 Get) wq_empty) = [''default/a'']
   \<and> count_list (pending (snd (wq_run
          ([Add ''default/a'', Add ''default/b'', Add ''default/a''] @ [Done ''default/a''])
          (snd (wq_run [Add ''default/a'', Get] wq_empty))))) ''default/a'' = 1"
proof -
  let ?a = "''default/a''"
  let ?q = "snd (wq_run [Add ?a, Get] wq_empty)"
  let ?ops = "[Add ?a, Add ''default/b'', Add ?a]"
  have i: "wq_inv wq_empty" by (rule wq_inv_empty)
  have h: "wq_inv (wq_add ?a wq_empty)" using i by (rule wq_inv_add)
  have p: "?a \<in> set (pending (wq_add ?a wq_empty))"
    by (simp add: wq_empty_def wq_add_def)
  have j: "wq_inv ?q" using i by (rule wq_inv_run)
  have f: "?a \<in> inflight ?q"
    by (simp add: wq_empty_def wq_add_def wq_get_def)
  have "wq_add ?a (wq_add ?a wq_empty) = wq_add ?a wq_empty"
    using C3_dedup [OF h, of ?a] p by simp
  moreover have "fst (wq_run (replicate 3 (Add ?a) @ replicate 2 Get) wq_empty) = [?a]"
    using C3_dedup [OF i, of ?a 3 2] by (simp add: wq_empty_def wq_add_def)
  moreover have "count_list (pending (snd (wq_run (?ops @ [Done ?a]) ?q))) ?a = 1"
    using C3_dedup [OF j, of ?a _ _ ?ops] f by simp
  ultimately show ?thesis by simp
qed

section \<open>The event handlers\<close>

text \<open>A secret is tracked exactly when its expiration annotation is present and parses.\<close>

lemma parseSecretInfo_tracked_iff:
  "snd (parseSecretInfo l now secret) \<longleftrightarrow>
     (\<exists>v t. Annotations secret AnnotationExpiresAt = Some v \<and> time_Parse l v = Inr t)"
  by (auto simp: parseSecretInfo_def Let_def split: option.splits sum.splits)

text \<open>
  Claim C4. When the old and the new secret of an update notification have the same
  resource version, \<open>handleUpdate\<close> returns without a single call: nothing is enqueued and
  the work queue is left as it was, whatever the annotations of the two objects.
\<close>

theorem C4_same_version_no_call:
  assumes "ResourceVersion oldSecret = ResourceVersion newSecret"
  shows "handleUpdate l now now' (SecretPtr oldSecret) (SecretPtr newSecret) = []"
  using assms by (simp add: handleUpdate_def)

text \<open>A notification that lost the annotation but kept the version enqueues nothing.\<close>

theorem C4_same_version_no_call_witness:
  "handleUpdate example_lib date_2024_12_31 date_2024_12_31
     (SecretPtr example_secret)
     (SecretPtr (example_secret\<lparr>Annotations := Map.empty\<rparr>)) = []"
  by (rule C4_same_version_no_call) simp

text \<open>
  Claim C5. When the resource versions differ, \<open>handleUpdate\<close> adds the key of the new
  object to the work queue if the old or the new secret is tracked, and makes no call on
  the work queue if neither is.
\<close>

theorem C5_update_enqueues_iff_tracked:
  fixes l :: lib
  assumes "ResourceVersion oldSecret \<noteq> ResourceVersion newSecret"
    and "cache_MetaNamespaceKeyFunc l (SecretPtr newSecret) = Inr key"
  defines "tracked \<equiv> \<lambda>secret.
      \<exists>v t. Annotations secret AnnotationExpiresAt = Some v \<and> time_Parse l v = Inr t"
  shows "workqueue_calls (handleUpdate l now now' (SecretPtr oldSecret) (SecretPtr newSecret))
       = (if tracked oldSecret \<or> tracked newSecret then [workqueue_Add key] else [])"
proof -
  have t: "snd (parseSecretInfo l now oldSecret) = tracked oldSecret"
    "snd (parseSecretInfo l now' newSecret) = tracked newSecret"
    unfolding tracked_def by (rule parseSecretInfo_tracked_iff)+
  show ?thesis
    using assms(1,2) by (simp add: handleUpdate_def workqueue_calls_def Let_def t)
qed

text \<open>The annotation is removed from the example secret: its key is enqueued.\<close>

theorem C5_update_enqueues_iff_tracked_witness:
  "workqueue_calls (handleUpdate example_lib date_2024_12_31 date_2024_12_31
     (SecretPtr example_secret)
     (SecretPtr (example_secret\<lparr>ResourceVersion := ''42'', Annotations := Map.empty\<rparr>)))
   = [workqueue_Add ''default/db-password'']"
proof -
  let ?new = "example_secret\<lparr>ResourceVersion := ''42'', Annotations := Map.empty\<rparr>"
  have v: "ResourceVersion example_secret \<noteq> ResourceVersion ?new"
    by (simp add: example_secret_def)
  have k: "cache_MetaNamespaceKeyFunc example_lib (SecretPtr ?new) = Inr ''default/db-password''"
    by (simp add: example_lib_def example_KeyFunc_def example_secret_def)
  have t: "Annotations example_secret AnnotationExpiresAt = Some ''2024-12-31''
      \<and> time_Parse example_lib ''2024-12-31'' = Inr date_2024_12_31"
    by (simp add: example_secret_def example_lib_def)
  show ?thesis
    using C5_update_enqueues_iff_tracked [OF v k, of date_2024_12_31 date_2024_12_31] t
    by auto
qed

section \<open>A worker pass\<close>

lemma emitExpirationEvent_no_workqueue_call:
  "workqueue_calls (emitExpirationEvent secret info) = []"
  by (simp add: emitExpirationEvent_def workqueue_calls_def)

lemma reconcile_no_workqueue_call:
  "workqueue_calls (fst (reconcile l st now key)) = []"
  using emitExpirationEvent_no_workqueue_call
  by (simp add: reconcile_def workqueue_calls_def Let_def
      split: sum.splits option.splits object.splits prod.splits)

lemma reconcile_no_Done:
  "count_list (fst (reconcile l st now key)) (workqueue_Done key) = 0"
  by (simp add: reconcile_def emitExpirationEvent_def Let_def
      split: sum.splits option.splits object.splits prod.splits)

text \<open>The calls of a pass: those of \<open>reconcile\<close>, then the acknowledgement.\<close>

lemma processNextWorkItem_calls:
  assumes "reconcile l st now key = (calls, err)"
  shows "fst (processNextWorkItem l st now (key, False)) =
    calls @
    (case err of
       None \<Rightarrow> [workqueue_Forget key, workqueue_Done key]
     | Some e \<Rightarrow>
         [workqueue_AddRateLimited key,
          klog klog_Error ''Error reconciling %s (will retry): %v''
            [AString key, AError e],
          workqueue_Done key])"
  using assms by (simp add: processNextWorkItem_def split: option.splits)

lemma event_reasons_append: "event_reasons (xs @ ys) = event_reasons xs @ event_reasons ys"
  by (induction xs rule: event_reasons.induct) simp_all

lemma workqueue_calls_append:
  "workqueue_calls (xs @ ys) = workqueue_calls xs @ workqueue_calls ys"
  by (simp add: workqueue_calls_def)

text \<open>
  Claim C6. A worker pass on a dequeued key: when the key is not in the store, and when it
  is there but the secret is not tracked, the pass records no event and ends with
  \<open>Forget\<close>; when the secret is there and tracked, the pass records the event of its
  status and ends with \<open>Forget\<close>; when the store returns an error, the pass ends with
  \<open>AddRateLimited\<close>. Every pass makes one of these two acknowledgements, followed by
  \<open>Done\<close>, and calls \<open>Done\<close> on the key exactly once.
\<close>

theorem C6_worker_pass:
  fixes l :: lib and st :: store and now :: Time and key :: string
  defines "pass \<equiv> fst (processNextWorkItem l st now (key, False))"
  shows "(st key = Inr None \<longrightarrow>
            workqueue_calls pass = [workqueue_Forget key, workqueue_Done key]
            \<and> event_reasons pass = [])
       \<and> (\<forall>secret. st key = Inr (Some (SecretPtr secret))
              \<and> \<not> snd (parseSecretInfo l now secret) \<longrightarrow>
            workqueue_calls pass = [workqueue_Forget key, workqueue_Done key]
            \<and> event_reasons pass = [])
       \<and> (\<forall>secret namespace name. cache_SplitMetaNamespaceKey l key = Inr (namespace, name)
              \<and> st key = Inr (Some (SecretPtr secret))
              \<and> snd (parseSecretInfo l now secret) \<longrightarrow>
            workqueue_calls pass = [workqueue_Forget key, workqueue_Done key]
            \<and> event_reasons pass =
                event_reasons (emitExpirationEvent secret (fst (parseSecretInfo l now secret))))
       \<and> (\<forall>err namespace name. cache_SplitMetaNamespaceKey l key = Inr (namespace, name)
              \<and> st key = Inl err \<longrightarrow>
            workqueue_calls pass = [workqueue_AddRateLimited key, workqueue_Done key]
            \<and> event_reasons pass = [])
       \<and> (workqueue_calls pass = [workqueue_Forget key, workqueue_Done key]
            \<or> workqueue_calls pass = [workqueue_AddRateLimited key, workqueue_Done key])
       \<and> count_list pass (workqueue_Done key) = 1
       \<and> snd (processNextWorkItem l st now (key, False))"
proof -
  obtain calls err where r: "reconcile l st now key = (calls, err)"
    by (cases "reconcile l st now key")
  have p: "pass = calls @
    (case err of
       None \<Rightarrow> [workqueue_Forget key, workqueue_Done key]
     | Some e \<Rightarrow>
         [workqueue_AddRateLimited key,
          klog klog_Error ''Error reconciling %s (will retry): %v''
            [AString key, AError e],
          workqueue_Done key])"
    unfolding pass_def using r by (rule processNextWorkItem_calls)
  have q: "workqueue_calls calls = []"
    using reconcile_no_workqueue_call [of l st now key] r by simp
  have d: "count_list calls (workqueue_Done key) = 0"
    using reconcile_no_Done [of l st now key] r by simp
  have w: "workqueue_calls pass =
    (case err of
       None \<Rightarrow> [workqueue_Forget key, workqueue_Done key]
     | Some e \<Rightarrow> [workqueue_AddRateLimited key, workqueue_Done key])"
    unfolding p workqueue_calls_append q
    by (simp add: workqueue_calls_def split: option.splits)
  have e: "event_reasons pass = event_reasons calls"
    unfolding p event_reasons_append by (simp split: option.splits)
  have c1: "st key = Inr None \<Longrightarrow> err = None \<and> event_reasons calls = []"
    using r by (auto simp: reconcile_def split: sum.splits)
  have c2: "st key = Inr (Some (SecretPtr secret)) \<Longrightarrow> \<not> snd (parseSecretInfo l now secret)
      \<Longrightarrow> err = None \<and> event_reasons calls = []" for secret
    using r by (auto simp: reconcile_def split: sum.splits prod.splits)
  have c3: "cache_SplitMetaNamespaceKey l key = Inr (namespace, name)
      \<Longrightarrow> st key = Inr (Some (SecretPtr secret)) \<Longrightarrow> snd (parseSecretInfo l now secret)
      \<Longrightarrow> err = None \<and> event_reasons calls =
            event_reasons (emitExpirationEvent secret (fst (parseSecretInfo l now secret)))"
    for secret namespace name
    using r by (auto simp: reconcile_def split: prod.splits)
  have c4: "cache_SplitMetaNamespaceKey l key = Inr (namespace, name) \<Longrightarrow> st key = Inl e'
      \<Longrightarrow> (\<exists>e. err = Some e) \<and> event_reasons calls = []" for e' namespace name
    using r by (auto simp: reconcile_def)
  have c5: "count_list pass (workqueue_Done key) = 1"
    unfolding p using d by (simp split: option.splits)
  have c6: "snd (processNextWorkItem l st now (key, False))"
    using r by (simp add: processNextWorkItem_def split: option.splits)
  have k1: "st key = Inr None \<longrightarrow>
      workqueue_calls pass = [workqueue_Forget key, workqueue_Done key]
      \<and> event_reasons pass = []"
    unfolding w e using c1 by simp
  have k2: "\<forall>secret. st key = Inr (Some (SecretPtr secret))
        \<and> \<not> snd (parseSecretInfo l now secret) \<longrightarrow>
      workqueue_calls pass = [workqueue_Forget key, workqueue_Done key]
      \<and> event_reasons pass = []"
    unfolding w e using c2 by simp
  have k3: "\<forall>secret namespace name. cache_SplitMetaNamespaceKey l key = Inr (namespace, name)
        \<and> st key = Inr (Some (SecretPtr secret))
        \<and> snd (parseSecretInfo l now secret) \<longrightarrow>
      workqueue_calls pass = [workqueue_Forget key, workqueue_Done key]
      \<and> event_reasons pass =
          event_reasons (emitExpirationEvent secret (fst (parseSecretInfo l now secret)))"
    unfolding w e using c3 by simp
  have k4: "\<forall>err namespace name. cache_SplitMetaNamespaceKey l key = Inr (namespace, name)
        \<and> st key = Inl err \<longrightarrow>
      workqueue_calls pass = [workqueue_AddRateLimited key, workqueue_Done key]
      \<and> event_reasons pass = []"
  proof (intro allI impI)
    fix e' namespace name
    assume "cache_SplitMetaNamespaceKey l key = Inr (namespace, name) \<and> st key = Inl e'"
    then obtain e'' where "err = Some e''" "event_reasons calls = []"
      using c4 by blast
    then show "workqueue_calls pass = [workqueue_AddRateLimited key, workqueue_Done key]
      \<and> event_reasons pass = []"
      unfolding w e by simp
  qed
  have k5: "workqueue_calls pass = [workqueue_Forget key, workqueue_Done key]
      \<or> workqueue_calls pass = [workqueue_AddRateLimited key, workqueue_Done key]"
    unfolding w by (simp split: option.splits)
  show ?thesis
    using k1 k2 k3 k4 k5 c5 c6 by blast
qed

text \<open>
  The four cases on the key of the example secret, read on 2024-12-27, 4 days before it
  expires: an empty store; the secret without its annotation; the secret; a store that
  fails.
\<close>

theorem C6_worker_pass_witness:
  "workqueue_calls (fst (processNextWorkItem example_lib (\<lambda>k. Inr None)
       (date_2024_12_31 - 4 * (24 * Hour)) (''default/db-password'', False)))
     = [workqueue_Forget ''default/db-password'', workqueue_Done ''default/db-password'']
   \<and> event_reasons (fst (processNextWorkItem example_lib
       (store_of ''default/db-password''
          (SecretPtr (example_secret\<lparr>Annotations := Map.empty\<rparr>)))
       (date_2024_12_31 - 4 * (24 * Hour)) (''default/db-password'', False)))
     = []
   \<and> workqueue_calls (fst (processNextWorkItem example_lib
       (store_of ''default/db-password'' (SecretPtr example_secret))
       (date_2024_12_31 - 4 * (24 * Hour)) (''default/db-password'', False)))
     = [workqueue_Forget ''default/db-password'', workqueue_Done ''default/db-password'']
   \<and> event_reasons (fst (processNextWorkItem example_lib
       (store_of ''default/db-password'' (SecretPtr example_secret))
       (date_2024_12_31 - 4 * (24 * Hour)) (''default/db-password'', False)))
     = [''SecretExpiringSoon'']
   \<and> workqueue_calls (fst (processNextWorkItem example_lib
       (\<lambda>k. Inl (Err ''store closed''))
       (date_2024_12_31 - 4 * (24 * Hour)) (''default/db-password'', False)))
     = [workqueue_AddRateLimited ''default/db-password'', workqueue_Done ''default/db-password'']"
proof -
  let ?k = "''default/db-password''"
  let ?now = "date_2024_12_31 - 4 * (24 * Hour)"
  let ?bare = "example_secret\<lparr>Annotations := Map.empty\<rparr>"
  have s: "cache_SplitMetaNamespaceKey example_lib ?k = Inr (''default'', ''db-password'')"
    by (simp add: example_lib_def example_SplitKey_def)
  have n: "(\<lambda>k. Inr None) ?k = (Inr None :: error + object option)"
    by simp
  have b: "store_of ?k (SecretPtr ?bare) ?k = Inr (Some (SecretPtr ?bare))"
    by (simp add: store_of_def)
  have u: "\<not> snd (parseSecretInfo example_lib ?now ?bare)"
    by (simp add: parseSecretInfo_def)
  have f: "store_of ?k (SecretPtr example_secret) ?k = Inr (Some (SecretPtr example_secret))"
    by (simp add: store_of_def)
  have t: "snd (parseSecretInfo example_lib ?now example_secret)"
    by (simp add: parseSecretInfo_def Let_def example_lib_def example_secret_def
        AnnotationExpiresAt_def AnnotationWarnBefore_def)
  have r: "event_reasons (emitExpirationEvent example_secret
      (fst (parseSecretInfo example_lib ?now example_secret))) = [''SecretExpiringSoon'']"
    by code_simp
  have g: "(\<lambda>k. Inl (Err ''store closed'')) ?k
      = (Inl (Err ''store closed'') :: error + object option)"
    by simp
  show ?thesis
    using C6_worker_pass [of "\<lambda>k. Inr None" ?k example_lib ?now] n
      C6_worker_pass [of "store_of ?k (SecretPtr ?bare)" ?k example_lib ?now] b u
      C6_worker_pass [of "store_of ?k (SecretPtr example_secret)" ?k example_lib ?now] s f t r
      C6_worker_pass [of "\<lambda>k. Inl (Err ''store closed'')" ?k example_lib ?now] g
    by simp
qed

section \<open>The lead time\<close>

text \<open>
  A value of more than one character that ends in \<open>d\<close> is read by \<open>Atoi\<close> alone; every
  other value goes to \<^verbatim>\<open>time.ParseDuration\<close>. Within 106751 days the product is exact.
\<close>

lemma parseDuration_days:
  assumes "ds \<noteq> []"
  shows "parseDuration l (ds @ ''d'') =
    (case Atoi ds of
       Inl err \<Rightarrow> Inl (Wrap ''invalid days format: %w'' err)
     | Inr days \<Rightarrow> Inr (int64 (int64 (days * 24) * Hour)))"
  using assms
  by (simp add: parseDuration_def TrimSuffix_def nth_append int64_mul_def Let_def
      split: sum.splits)

lemma int64_in_range:
  assumes "- (2 ^ 63) \<le> x" "x < 2 ^ 63"
  shows "int64 x = x"
proof -
  have "0 \<le> x + 2 ^ 63" "x + 2 ^ 63 < 2 ^ 64"
    using assms by simp_all
  then have "(x + 2 ^ 63) mod 2 ^ 64 = x + 2 ^ 63"
    by (rule mod_pos_pos_trivial)
  then show ?thesis
    unfolding int64_def by simp
qed

lemma int64_days_exact:
  assumes "\<bar>days\<bar> \<le> 106751"
  shows "int64 (int64 (days * 24) * Hour) = days * (24 * Hour)"
proof -
  have "int64 (days * 24) = days * 24"
    using assms by (intro int64_in_range) simp_all
  moreover have "int64 (days * 24 * Hour) = days * 24 * Hour"
    using assms by (intro int64_in_range) (simp_all add: Hour_def)
  ultimately show ?thesis by simp
qed

lemma parseDuration_other:
  assumes "\<not> (length s > 1 \<and> s ! (length s - 1) = CHR ''d'')"
  shows "parseDuration l s = time_ParseDuration l s"
  using assms by (auto simp: parseDuration_def)

lemma parseSecretInfo_WarnBefore:
  assumes "Annotations secret AnnotationExpiresAt = Some v"
    and "time_Parse l v = Inr expTime"
    and "Annotations secret AnnotationWarnBefore = Some w"
  shows "WarnBefore (fst (parseSecretInfo l now secret)) =
    (case parseDuration l w of Inr parsed \<Rightarrow> parsed | Inl err \<Rightarrow> 7 * 24 * Hour)"
  using assms by (simp add: parseSecretInfo_def Let_def)

text \<open>
  Claim C7 fails on the code for a day count beyond 106751: the product
  \<^verbatim>\<open>time.Duration(days) * 24 * time.Hour\<close> wraps around. The lead time \<^verbatim>\<open>200000d\<close> is read
  as a negative duration, with no error; the threshold is \<open>- 13503\<close> days, and one day
  before it expires the secret is reported valid.
\<close>

theorem C7_days_overflow:
  "parseDuration example_lib ''200000d'' = Inr (- 1166744073709551616)
   \<and> warnThresholdDays (fst (parseSecretInfo example_lib (date_2024_12_31 - 24 * Hour)
        (example_secret\<lparr>Annotations :=
           [AnnotationExpiresAt \<mapsto> ''2024-12-31'', AnnotationWarnBefore \<mapsto> ''200000d'']\<rparr>)))
       = - 13503
   \<and> event_reasons (emitExpirationEvent example_secret
        (fst (parseSecretInfo example_lib (date_2024_12_31 - 24 * Hour)
          (example_secret\<lparr>Annotations :=
             [AnnotationExpiresAt \<mapsto> ''2024-12-31'', AnnotationWarnBefore \<mapsto> ''200000d'']\<rparr>))))
       = [''SecretValid'']"
  by code_simp

section \<open>A malformed expiration date\<close>

text \<open>
  Claim C8. A secret whose expiration annotation does not parse as a date is reported as
  not tracked; \<open>handleAdd\<close> makes no call on the work queue for it; and a worker pass that
  finds it in the store records no event, returns no error and ends with \<open>Forget\<close> and
  \<open>Done\<close>, so the key is not retried.
\<close>

theorem C8_malformed_date_untracked:
  assumes "Annotations secret AnnotationExpiresAt = Some v"
    and "time_Parse l v = Inl err"
    and "st key = Inr (Some (SecretPtr secret))"
  shows "\<not> snd (parseSecretInfo l now secret)
       \<and> workqueue_calls (handleAdd l now (SecretPtr secret)) = []
       \<and> snd (reconcile l st now key) = None
       \<and> event_reasons (fst (reconcile l st now key)) = []
       \<and> workqueue_calls (fst (processNextWorkItem l st now (key, False)))
           = [workqueue_Forget key, workqueue_Done key]"
proof -
  have u: "\<not> snd (parseSecretInfo l now secret)"
    using assms(1,2) by (simp add: parseSecretInfo_def)
  have a: "workqueue_calls (handleAdd l now (SecretPtr secret)) = []"
    using u by (simp add: handleAdd_def workqueue_calls_def split: sum.splits)
  obtain info where i: "parseSecretInfo l now secret = (info, False)"
    using u by (cases "parseSecretInfo l now secret") simp
  have r: "snd (reconcile l st now key) = None
      \<and> event_reasons (fst (reconcile l st now key)) = []
      \<and> workqueue_calls (fst (reconcile l st now key)) = []"
    using i assms(3)
    by (simp add: reconcile_def workqueue_calls_def split: sum.splits prod.splits)
  then obtain calls where c: "reconcile l st now key = (calls, None)"
    "workqueue_calls calls = []"
    by (cases "reconcile l st now key") auto
  then have "workqueue_calls (fst (processNextWorkItem l st now (key, False)))
      = [workqueue_Forget key, workqueue_Done key]"
    by (simp add: processNextWorkItem_def workqueue_calls_def)
  then show ?thesis using u a r by simp
qed

text \<open>The example secret with the date \<^verbatim>\<open>not-a-date\<close>.\<close>

theorem C8_malformed_date_untracked_witness:
  "workqueue_calls (handleAdd example_lib date_2024_12_31
     (SecretPtr (example_secret\<lparr>Annotations := [AnnotationExpiresAt \<mapsto> ''not-a-date'']\<rparr>))) = []
   \<and> workqueue_calls (fst (processNextWorkItem example_lib
         (store_of ''default/db-password''
            (SecretPtr (example_secret\<lparr>Annotations := [AnnotationExpiresAt \<mapsto> ''not-a-date'']\<rparr>)))
         date_2024_12_31 (''default/db-password'', False)))
       = [workqueue_Forget ''default/db-password'', workqueue_Done ''default/db-password'']"
proof -
  let ?s = "example_secret\<lparr>Annotations := [AnnotationExpiresAt \<mapsto> ''not-a-date'']\<rparr>"
  have a: "Annotations ?s AnnotationExpiresAt = Some ''not-a-date''" by simp
  have p: "time_Parse example_lib ''not-a-date'' = Inl (Err ''parsing time: cannot parse'')"
    by (simp add: example_lib_def)
  have s: "store_of ''default/db-password'' (SecretPtr ?s) ''default/db-password''
      = Inr (Some (SecretPtr ?s))"
    by (simp add: store_of_def)
  show ?thesis
    using C8_malformed_date_untracked
      [where st = "store_of ''default/db-password'' (SecretPtr ?s)"
         and key = "''default/db-password''" and now = date_2024_12_31, OF a p s]
    by simp
qed

section \<open>Removal of a secret\<close>

text \<open>
  Claim C9. For every object a delete notification carries, a Secret, a tombstone or
  anything else, \<open>handleDelete\<close> makes no call on the work queue: every call it makes is a
  log line.
\<close>

theorem C9_delete_only_logs:
  "workqueue_calls (handleDelete l now obj) = [] \<and> list_all is_klog (handleDelete l now obj)"
  by (simp add: handleDelete_def handleDelete_secret_def workqueue_calls_def
      split: object.splits sum.splits)

text \<open>The tombstone of the example secret: one log line, nothing enqueued.\<close>

theorem C9_delete_only_logs_witness:
  "handleDelete example_lib date_2024_12_31
     (DeletedFinalStateUnknown ''default/db-password'' (SecretPtr example_secret))
   = [klog klog_Info ''DELETE: %s (was tracking expiration)'' [AString ''default/db-password'']]
   \<and> workqueue_calls (handleDelete example_lib date_2024_12_31
         (DeletedFinalStateUnknown ''default/db-password'' (SecretPtr example_secret))) = []"
proof -
  have "handleDelete example_lib date_2024_12_31
     (DeletedFinalStateUnknown ''default/db-password'' (SecretPtr example_secret))
   = [klog klog_Info ''DELETE: %s (was tracking expiration)'' [AString ''default/db-password'']]"
    by (simp add: handleDelete_def handleDelete_secret_def parseSecretInfo_def Let_def
        example_lib_def example_secret_def example_KeyFunc_def AnnotationExpiresAt_def
        AnnotationWarnBefore_def)
  then show ?thesis
    using C9_delete_only_logs [of example_lib date_2024_12_31
        "DeletedFinalStateUnknown ''default/db-password'' (SecretPtr example_secret)"]
    by simp
qed

section \<open>What the verdict depends on\<close>

text \<open>
  Claim C10. Two secrets with the same name, namespace and annotations, read at the same
  instant, give the same result of \<open>parseSecretInfo\<close>: the resource version, the labels,
  the data payload and the type of the secret have no influence.
\<close>

theorem C10_depends_on_name_namespace_annotations:
  assumes "Secret.Name s = Secret.Name s'"
    and "Secret.Namespace s = Secret.Namespace s'"
    and "Annotations s = Annotations s'"
  shows "parseSecretInfo l now s = parseSecretInfo l now s'"
  unfolding parseSecretInfo_def assms by (rule refl)

text \<open>The example secret with another version, label, payload and type.\<close>

theorem C10_depends_on_name_namespace_annotations_witness:
  "parseSecretInfo example_lib date_2024_12_31 example_secret
   = parseSecretInfo example_lib date_2024_12_31
       (example_secret\<lparr>ResourceVersion := ''42'', Labels := [''app'' \<mapsto> ''db''],
          Data := [''password'' \<mapsto> ''swordfish''], Type := ''kubernetes.io/basic-auth''\<rparr>)"
  by (rule C10_depends_on_name_namespace_annotations) simp_all

section \<open>The scenarios of the spec\<close>

text \<open>
  The example secret expires on 2024-12-31. Read at midnight (UTC) of 2024-12-20, of
  2024-12-27 and of 2025-01-05, its day-count and status are 11 and valid, 4 and expiring
  soon, \<open>- 5\<close> and expired; with a lead time of \<^verbatim>\<open>3d\<close> it is valid on 2024-12-27.
\<close>

lemma scenario_valid:
  "DaysUntilExp (fst (parseSecretInfo example_lib (date_2024_12_31 - 11 * (24 * Hour))
      example_secret)) = 11
   \<and> event_reasons (emitExpirationEvent example_secret
        (fst (parseSecretInfo example_lib (date_2024_12_31 - 11 * (24 * Hour)) example_secret)))
      = [''SecretValid'']"
  by code_simp

lemma scenario_expiring_soon:
  "DaysUntilExp (fst (parseSecretInfo example_lib (date_2024_12_31 - 4 * (24 * Hour))
      example_secret)) = 4
   \<and> event_reasons (emitExpirationEvent example_secret
        (fst (parseSecretInfo example_lib (date_2024_12_31 - 4 * (24 * Hour)) example_secret)))
      = [''SecretExpiringSoon'']"
  by code_simp

lemma scenario_expired:
  "DaysUntilExp (fst (parseSecretInfo example_lib (date_2024_12_31 + 5 * (24 * Hour))
      example_secret)) = - 5
   \<and> event_reasons (emitExpirationEvent example_secret
        (fst (parseSecretInfo example_lib (date_2024_12_31 + 5 * (24 * Hour)) example_secret)))
      = [''SecretExpired'']"
  by code_simp

lemma scenario_lead_time_3d:
  "warnThresholdDays (fst (parseSecretInfo example_lib (date_2024_12_31 - 4 * (24 * Hour))
      (example_secret\<lparr>Annotations :=
         [AnnotationExpiresAt \<mapsto> ''2024-12-31'', AnnotationWarnBefore \<mapsto> ''3d'']\<rparr>))) = 3
   \<and> event_reasons (emitExpirationEvent example_secret
        (fst (parseSecretInfo example_lib (date_2024_12_31 - 4 * (24 * Hour))
          (example_secret\<lparr>Annotations :=
             [AnnotationExpiresAt \<mapsto> ''2024-12-31'', AnnotationWarnBefore \<mapsto> ''3d'']\<rparr>))))
      = [''SecretValid'']"
  by code_simp

end
